theory Spec2Isabelle
  imports Main "HOL-Library.Char_ord" "HOL-Library.List_Lexorder" "HOL-Library.Monad_Syntax"
begin

section \<open>String utilities (common.cpp)\<close>

text \<open>
  \<open>serializeStrings\<close> appends every non-empty element followed by the separator to an
  accumulator that starts empty; the loop is written with the accumulator it mutates.
\<close>

fun serializeStrings_loop :: "string \<Rightarrow> string list \<Rightarrow> char \<Rightarrow> string" where
  "serializeStrings_loop serializedIDs [] separator = serializedIDs"
| "serializeStrings_loop serializedIDs (i # ids) separator =
     (if i \<noteq> [] then serializeStrings_loop (serializedIDs @ i @ [separator]) ids separator
      else serializeStrings_loop serializedIDs ids separator)"

definition serializeStrings :: "string list \<Rightarrow> char \<Rightarrow> string" where
  "serializeStrings ids separator = serializeStrings_loop [] ids separator"

text \<open>
  \<open>std::string::substr(pos, n)\<close> for \<open>pos \<le> size\<close>; every call below satisfies this.
\<close>

definition substr :: "string \<Rightarrow> nat \<Rightarrow> nat \<Rightarrow> string" where
  "substr s pos n = take n (drop pos s)"

text \<open>
  \<open>deserializeStrings\<close>: the \<open>for\<close> loop over \<open>end\<close>, which starts at 1 (not 0), with
  \<open>begin\<close> starting at 0. It stops when \<open>end\<close> reaches the length of the text.
\<close>

function deserializeStrings_loop ::
  "string \<Rightarrow> char \<Rightarrow> nat \<Rightarrow> nat \<Rightarrow> string list \<Rightarrow> string list" where
  "deserializeStrings_loop serializedIDs separator begin_pos end_pos ids =
     (if end_pos < length serializedIDs then
        (if serializedIDs ! end_pos = separator
         then deserializeStrings_loop serializedIDs separator (end_pos + 1) (end_pos + 1)
                (ids @ [substr serializedIDs begin_pos (end_pos - begin_pos)])
         else deserializeStrings_loop serializedIDs separator begin_pos (end_pos + 1) ids)
      else ids)"
  by pat_completeness auto
termination
  by (relation "measure (\<lambda>(s, sep, b, e, ids). length s - e)") auto

declare deserializeStrings_loop.simps [simp del]

definition deserializeStrings :: "string \<Rightarrow> char \<Rightarrow> string list" where
  "deserializeStrings serializedIDs separator =
     deserializeStrings_loop serializedIDs separator 0 1 []"

text \<open>
  \<open>std::string::find_first_of(c)\<close> and \<open>find_last_of(c)\<close>: the position of the first
  (last) occurrence, \<open>None\<close> for \<open>npos\<close>.
\<close>

fun find_first_of :: "string \<Rightarrow> char \<Rightarrow> nat option" where
  "find_first_of [] c = None"
| "find_first_of (x # xs) c = (if x = c then Some 0 else map_option Suc (find_first_of xs c))"

definition find_last_of :: "string \<Rightarrow> char \<Rightarrow> nat option" where
  "find_last_of s c =
     (case find_first_of (rev s) c of None \<Rightarrow> None | Some i \<Rightarrow> Some (length s - 1 - i))"

text \<open>
  \<open>getFilename\<close>: \<open>path.substr(path.find_last_of('/') + 1)\<close>; \<open>npos + 1\<close> wraps to 0, so
  a path without \<open>/\<close> is returned whole.
\<close>

definition getFilename :: "string \<Rightarrow> string" where
  "getFilename path =
     (case find_last_of path CHR ''/'' of None \<Rightarrow> path | Some p \<Rightarrow> drop (p + 1) path)"

text \<open>
  \<open>splitPathIntoParts\<close>: the \<open>while\<close> loop over \<open>remaining\<close>. When no \<open>/\<close> is left,
  \<open>substr(0, npos)\<close> is all of \<open>remaining\<close> (non-empty by the loop condition), it is
  pushed, and the loop ends because \<open>position\<close> is \<open>npos\<close>. \<open>path[0]\<close> of the empty
  string is the terminating NUL, which is not \<open>/\<close>.
\<close>

function splitPathIntoParts_loop :: "string \<Rightarrow> string list \<Rightarrow> string list" where
  "splitPathIntoParts_loop remaining parts =
     (if remaining = [] then parts
      else (case find_first_of remaining CHR ''/'' of
              None \<Rightarrow> parts @ [remaining]
            | Some position \<Rightarrow>
                (let part = substr remaining 0 position
                 in splitPathIntoParts_loop (drop (position + 1) remaining)
                      (if part \<noteq> [] then parts @ [part] else parts))))"
  by pat_completeness auto
termination
  by (relation "measure (\<lambda>(remaining, parts). length remaining)") auto

declare splitPathIntoParts_loop.simps [simp del]

definition splitPathIntoParts :: "string \<Rightarrow> string list" where
  "splitPathIntoParts path =
     (case path of
        [] \<Rightarrow> []
      | c # rest \<Rightarrow> if c = CHR ''/'' then splitPathIntoParts_loop rest [] else [])"

text \<open>
  \<open>popBackAndRemove\<close> returns the last element and removes it from the vector it was
  given by reference; the model returns the element and the shortened vector.
\<close>

definition popBackAndRemove :: "string list \<Rightarrow> string \<times> string list" where
  "popBackAndRemove parts = (if parts = [] then ('''', parts) else (last parts, butlast parts))"

section \<open>Integers as text\<close>

text \<open>
  Every id travels through the program as a \<open>std::string\<close>. SQLite renders an INTEGER
  column as decimal text (\<open>sqlite3_column_text\<close>); the bind macro \<open>macro_bind_int\<close> parses a
  string back with \<open>std::stoi\<close>.
\<close>

definition digit_char :: "nat \<Rightarrow> char" where
  "digit_char d = ''0123456789'' ! d"

function nat_digits :: "nat \<Rightarrow> string" where
  "nat_digits n =
     (if n < 10 then [digit_char n] else nat_digits (n div 10) @ [digit_char (n mod 10)])"
  by pat_completeness auto
termination
  by (relation "measure id") auto

declare nat_digits.simps [simp del]

definition int_text :: "int \<Rightarrow> string" where
  "int_text i = (if i < 0 then CHR ''-'' # nat_digits (nat (- i)) else nat_digits (nat i))"

text \<open>
  \<open>std::stoi\<close> (base 10): skips leading white space, accepts one sign, reads the longest
  run of digits and ignores what follows. It throws \<open>std::invalid_argument\<close> when there is
  no digit and \<open>std::out_of_range\<close> when the value does not fit a 32-bit \<open>int\<close>. Nothing
  in the program catches either, so an exception ends the daemon: \<open>None\<close>.
\<close>

definition isspace :: "char \<Rightarrow> bool" where
  "isspace c = (c \<in> set [CHR '' '', CHR 0x09, CHR 0x0A, CHR 0x0B, CHR 0x0C, CHR 0x0D])"

definition isdigit :: "char \<Rightarrow> bool" where
  "isdigit c = (c \<in> set ''0123456789'')"

text \<open>The value of a digit, \<open>c - '0'\<close>: its position among the ten digits.\<close>

definition digit_val :: "char \<Rightarrow> int" where
  "digit_val c = (case find_first_of ''0123456789'' c of None \<Rightarrow> 0 | Some p \<Rightarrow> int p)"

definition digits_value :: "string \<Rightarrow> int" where
  "digits_value ds = foldl (\<lambda>acc c. 10 * acc + digit_val c) 0 ds"

definition stoi :: "string \<Rightarrow> int option" where
  "stoi str =
     (let s = dropWhile isspace str;
          negative = (s \<noteq> [] \<and> hd s = CHR ''-'');
          body = (if s \<noteq> [] \<and> (hd s = CHR ''-'' \<or> hd s = CHR ''+'') then tl s else s);
          ds = takeWhile isdigit body;
          v = (if negative then - digits_value ds else digits_value ds)
      in if ds = [] then None
         else if v < - 2147483648 \<or> 2147483647 < v then None
         else Some v)"

section \<open>Error numbers\<close>

text \<open>The values of \<open>errno.h\<close> on Linux, the platform of the message queues and of FUSE.\<close>

definition ENOENT :: int where "ENOENT = 2"
definition EEXIST :: int where "EEXIST = 17"
definition ENOTEMPTY :: int where "ENOTEMPTY = 39"

section \<open>The metadata store\<close>

text \<open>
  The two tables of \<open>initDB\<close>. A table is the list of its rows in the order a scan without
  \<open>ORDER BY\<close> visits them (ascending rowid). \<open>parent_tags\<close>, \<open>child_tags\<close> and
  \<open>files_ids\<close> are nullable TEXT columns: \<open>CREATE_FOLDER\<close> leaves them NULL (\<open>None\<close>).
  \<open>files.parent_folder\<close> is always bound by the only INSERT and UPDATE that write it.
\<close>

record tag_row =
  tag_id :: int
  tag_name :: string
  tag_parent_folder :: int
  parent_tags :: "string option"
  child_tags :: "string option"
  files_ids :: "string option"

record file_row =
  file_id :: int
  filename :: string
  hash :: string
  file_parent_folder :: int

record db =
  tags_table :: "tag_row list"
  files_table :: "file_row list"

text \<open>The state \<open>initDB\<close> creates when no database file exists: the two reserved roots.\<close>

definition initDB :: db where
  "initDB =
     \<lparr>tags_table =
        [\<lparr>tag_id = 0, tag_name = ''__TaggableFS__//'', tag_parent_folder = - 1,
          parent_tags = Some '''', child_tags = Some '''', files_ids = Some ''''\<rparr>,
         \<lparr>tag_id = 1, tag_name = ''/'', tag_parent_folder = - 1,
          parent_tags = Some '''', child_tags = Some '''', files_ids = Some ''''\<rparr>],
      files_table = []\<rparr>"

text \<open>
  The three execution shapes. A statement is modelled by the rows it yields, each value a
  \<open>string option\<close> (\<open>None\<close> for NULL). \<open>dbExecuteSV\<close> reads the first column of the first
  row, the empty string when there is no row. Building a \<open>std::string\<close> from the null
  pointer that \<open>sqlite3_column_text\<close> returns for NULL is undefined: \<open>None\<close>.
\<close>

definition dbExecuteSV :: "string option list \<Rightarrow> string option" where
  "dbExecuteSV rows = (case rows of [] \<Rightarrow> Some '''' | v # _ \<Rightarrow> v)"

definition dbExecuteMV :: "string option list \<Rightarrow> string list option" where
  "dbExecuteMV rows = (if None \<in> set rows then None else Some (map the rows))"

definition dbExecuteMR :: "string option list list \<Rightarrow> string list list option" where
  "dbExecuteMR rows =
     (if \<exists>row \<in> set rows. None \<in> set row then None else Some (map (map the) rows))"

text \<open>
  A row inserted without an explicit id gets one more than the largest rowid in the table
  (1 in an empty table), as SQLite does for an INTEGER PRIMARY KEY below its maximum.
\<close>

definition next_rowid :: "int list \<Rightarrow> int" where
  "next_rowid ids = (if ids = [] then 1 else Max (set ids) + 1)"

subsection \<open>The prepared statements\<close>

definition GET_FILE_ID :: "db \<Rightarrow> string \<Rightarrow> int \<Rightarrow> string option list" where
  "GET_FILE_ID d fname parentFolderID =
     map (\<lambda>f. Some (int_text (file_id f)))
       (filter (\<lambda>f. filename f = fname \<and> file_parent_folder f = parentFolderID) (files_table d))"

definition GET_FILE_IDS_IN_FOLDER :: "db \<Rightarrow> int \<Rightarrow> string option list" where
  "GET_FILE_IDS_IN_FOLDER d parentFolderID =
     map (\<lambda>f. Some (int_text (file_id f)))
       (filter (\<lambda>f. file_parent_folder f = parentFolderID) (files_table d))"

definition GET_FILENAME_FROM_ID :: "db \<Rightarrow> int \<Rightarrow> string option list" where
  "GET_FILENAME_FROM_ID d fileID =
     map (\<lambda>f. Some (filename f)) (filter (\<lambda>f. file_id f = fileID) (files_table d))"

definition GET_FOLDER_ID :: "db \<Rightarrow> string \<Rightarrow> int \<Rightarrow> string option list" where
  "GET_FOLDER_ID d folderName parentFolderID =
     map (\<lambda>t. Some (int_text (tag_id t)))
       (filter (\<lambda>t. tag_name t = folderName \<and> tag_parent_folder t = parentFolderID) (tags_table d))"

definition GET_HASH :: "db \<Rightarrow> string \<Rightarrow> int \<Rightarrow> string option list" where
  "GET_HASH d fname parentFolderID =
     map (\<lambda>f. Some (hash f))
       (filter (\<lambda>f. filename f = fname \<and> file_parent_folder f = parentFolderID) (files_table d))"



definition DELETE_FILE :: "db \<Rightarrow> int \<Rightarrow> db" where
  "DELETE_FILE d fileID = d\<lparr>files_table := filter (\<lambda>f. file_id f \<noteq> fileID) (files_table d)\<rparr>"

definition RENAME_PATH_1 :: "db \<Rightarrow> string \<Rightarrow> int \<Rightarrow> int \<Rightarrow> db" where
  "RENAME_PATH_1 d newName newParentFolderID oldFileID =
     d\<lparr>files_table := map (\<lambda>f. if file_id f = oldFileID
                           then f\<lparr>filename := newName, file_parent_folder := newParentFolderID\<rparr>
                           else f) (files_table d)\<rparr>"

definition RENAME_PATH_2 :: "db \<Rightarrow> string \<Rightarrow> int \<Rightarrow> int \<Rightarrow> db" where
  "RENAME_PATH_2 d newName newParentFolderID oldFolderID =
     d\<lparr>tags_table := map (\<lambda>t. if tag_id t = oldFolderID
                          then t\<lparr>tag_name := newName, tag_parent_folder := newParentFolderID\<rparr>
                          else t) (tags_table d)\<rparr>"

definition GET_TAG_ID :: "db \<Rightarrow> string \<Rightarrow> string option list" where
  "GET_TAG_ID d tag =
     map (\<lambda>t. Some (int_text (tag_id t)))
       (filter (\<lambda>t. tag_name t = tag \<and> tag_parent_folder t = 0) (tags_table d))"

definition GET_TAG_NAME_FROM_ID :: "db \<Rightarrow> int \<Rightarrow> string option list" where
  "GET_TAG_NAME_FROM_ID d tagID =
     map (\<lambda>t. Some (tag_name t)) (filter (\<lambda>t. tag_id t = tagID) (tags_table d))"

definition GET_ALL_TAG_IDS :: "db \<Rightarrow> string option list" where
  "GET_ALL_TAG_IDS d =
     map (\<lambda>t. Some (int_text (tag_id t))) (filter (\<lambda>t. tag_parent_folder t = 0) (tags_table d))"

definition GET_PARENT_TAG_IDS :: "db \<Rightarrow> int \<Rightarrow> string option list" where
  "GET_PARENT_TAG_IDS d tagID = map parent_tags (filter (\<lambda>t. tag_id t = tagID) (tags_table d))"

definition GET_CHILD_TAG_IDS :: "db \<Rightarrow> int \<Rightarrow> string option list" where
  "GET_CHILD_TAG_IDS d tagID = map child_tags (filter (\<lambda>t. tag_id t = tagID) (tags_table d))"

definition GET_FILE_IDS_UNDER_TAG_ID :: "db \<Rightarrow> int \<Rightarrow> string option list" where
  "GET_FILE_IDS_UNDER_TAG_ID d tagID = map files_ids (filter (\<lambda>t. tag_id t = tagID) (tags_table d))"

definition UPDATE_PARENT_TAG_IDS :: "db \<Rightarrow> string \<Rightarrow> int \<Rightarrow> db" where
  "UPDATE_PARENT_TAG_IDS d serializedIDs tagID =
     d\<lparr>tags_table := map (\<lambda>t. if tag_id t = tagID then t\<lparr>parent_tags := Some serializedIDs\<rparr> else t)
                  (tags_table d)\<rparr>"

definition UPDATE_CHILD_TAG_IDS :: "db \<Rightarrow> string \<Rightarrow> int \<Rightarrow> db" where
  "UPDATE_CHILD_TAG_IDS d serializedIDs tagID =
     d\<lparr>tags_table := map (\<lambda>t. if tag_id t = tagID then t\<lparr>child_tags := Some serializedIDs\<rparr> else t)
                  (tags_table d)\<rparr>"

definition CREATE_TAG :: "db \<Rightarrow> string \<Rightarrow> string \<Rightarrow> db" where
  "CREATE_TAG d tag parentTags =
     d\<lparr>tags_table := tags_table d @
        [\<lparr>tag_id = next_rowid (map tag_id (tags_table d)), tag_name = tag, tag_parent_folder = 0,
          parent_tags = Some parentTags, child_tags = Some '''', files_ids = Some ''''\<rparr>]\<rparr>"

definition DELETE_TAG :: "db \<Rightarrow> int \<Rightarrow> db" where
  "DELETE_TAG d tagID = d\<lparr>tags_table := filter (\<lambda>t. tag_id t \<noteq> tagID) (tags_table d)\<rparr>"

definition UPDATE_TAG_FILE_IDS :: "db \<Rightarrow> string \<Rightarrow> int \<Rightarrow> db" where
  "UPDATE_TAG_FILE_IDS d serializedIDs tagID =
     d\<lparr>tags_table := map (\<lambda>t. if tag_id t = tagID then t\<lparr>files_ids := Some serializedIDs\<rparr> else t)
                  (tags_table d)\<rparr>"

definition GET_FILE_TAGS :: "db \<Rightarrow> string option list list" where
  "GET_FILE_TAGS d =
     map (\<lambda>t. [Some (int_text (tag_id t)), Some (tag_name t), files_ids t])
       (filter (\<lambda>t. tag_parent_folder t = 0) (tags_table d))"

definition RENAME_TAGGED_PATH :: "db \<Rightarrow> string \<Rightarrow> int \<Rightarrow> db" where
  "RENAME_TAGGED_PATH d newName oldTagID =
     d\<lparr>tags_table := map (\<lambda>t. if tag_id t = oldTagID then t\<lparr>tag_name := newName\<rparr> else t) (tags_table d)\<rparr>"

definition COUNT_HASH_GT_1 :: "db \<Rightarrow> string \<Rightarrow> string option list" where
  "COUNT_HASH_GT_1 d h =
     [Some (if 1 < length (filter (\<lambda>f. hash f = h) (files_table d)) then ''1'' else ''0'')]"

section \<open>Folder methods (TFSManager.cpp)\<close>

text \<open>
  Every method returns an \<open>option\<close>: \<open>None\<close> stands for a run that does not return to the
  dispatcher (an uncaught exception of \<open>std::stoi\<close>, undefined behaviour, or a recursion
  that has used up its depth budget). A method that writes to the store returns the new
  store beside its result.
\<close>

definition getFileID :: "db \<Rightarrow> string \<Rightarrow> string \<Rightarrow> string option" where
  "getFileID d fname parentFolderID =
     do { pf \<leftarrow> stoi parentFolderID; dbExecuteSV (GET_FILE_ID d fname pf) }"

definition getFileIDsInFolder :: "db \<Rightarrow> string \<Rightarrow> string list option" where
  "getFileIDsInFolder d parentFolderID =
     do { pf \<leftarrow> stoi parentFolderID; dbExecuteMV (GET_FILE_IDS_IN_FOLDER d pf) }"

definition getFilenameFromID :: "db \<Rightarrow> string \<Rightarrow> string option" where
  "getFilenameFromID d fileID =
     do { fid \<leftarrow> stoi fileID; dbExecuteSV (GET_FILENAME_FROM_ID d fid) }"

text \<open>The two overloads of \<open>getFolderID\<close>: by name and parent, and by the parts of a path.\<close>

definition getFolderID :: "db \<Rightarrow> string \<Rightarrow> string \<Rightarrow> string option" where
  "getFolderID d folderName parentFolderID =
     do { pf \<leftarrow> stoi parentFolderID; dbExecuteSV (GET_FOLDER_ID d folderName pf) }"

fun getFolderID_loop :: "db \<Rightarrow> string list \<Rightarrow> string \<Rightarrow> string option" where
  "getFolderID_loop d [] folderID = Some folderID"
| "getFolderID_loop d (part # rest) folderID =
     (if folderID = '''' then Some ''''
      else do { next_id \<leftarrow> getFolderID d part folderID; getFolderID_loop d rest next_id })"

definition getFolderID_path :: "db \<Rightarrow> string list \<Rightarrow> string option" where
  "getFolderID_path d partsOfPath = getFolderID_loop d partsOfPath ''1''"

definition getHash :: "db \<Rightarrow> string \<Rightarrow> string \<Rightarrow> string option" where
  "getHash d fname parentFolderID =
     do { pf \<leftarrow> stoi parentFolderID; dbExecuteSV (GET_HASH d fname pf) }"



section \<open>Tag methods (TFSManager.cpp)\<close>

definition getTagNameFromID :: "db \<Rightarrow> string \<Rightarrow> string option" where
  "getTagNameFromID d tagID =
     do { tid \<leftarrow> stoi tagID; dbExecuteSV (GET_TAG_NAME_FROM_ID d tid) }"

definition getAllTagIDs :: "db \<Rightarrow> string list option" where
  "getAllTagIDs d = dbExecuteMV (GET_ALL_TAG_IDS d)"

definition getParentTagIDs :: "db \<Rightarrow> string \<Rightarrow> string list option" where
  "getParentTagIDs d tagID =
     do { tid \<leftarrow> stoi tagID;
          text \<leftarrow> dbExecuteSV (GET_PARENT_TAG_IDS d tid);
          Some (deserializeStrings text CHR '';'') }"

definition getChildTagIDs :: "db \<Rightarrow> string \<Rightarrow> string list option" where
  "getChildTagIDs d tagID =
     do { tid \<leftarrow> stoi tagID;
          text \<leftarrow> dbExecuteSV (GET_CHILD_TAG_IDS d tid);
          Some (deserializeStrings text CHR '';'') }"

definition getFileIDsUnderTagID :: "db \<Rightarrow> string \<Rightarrow> string list option" where
  "getFileIDsUnderTagID d tagID =
     (if tagID = '''' then Some []
      else do { tid \<leftarrow> stoi tagID;
                text \<leftarrow> dbExecuteSV (GET_FILE_IDS_UNDER_TAG_ID d tid);
                Some (deserializeStrings text CHR '';'') })"

text \<open>
  \<open>getAncestorTagIDs\<close> calls itself for every parent id, whether or not the id is already
  in the set, so it does not return on a cyclic \<open>parent_tags\<close> graph. The first argument
  bounds the depth of the recursion; \<open>None\<close> when it is used up. The \<open>for\<close> loop over
  \<open>parentIDs\<close> is the second function.
\<close>

fun getAncestorTagIDs :: "nat \<Rightarrow> db \<Rightarrow> string \<Rightarrow> string set \<Rightarrow> string set option"
  and getAncestorTagIDs_each :: "nat \<Rightarrow> db \<Rightarrow> string list \<Rightarrow> string set \<Rightarrow> string set option"
where
  "getAncestorTagIDs 0 d tagID ancestors = None"
| "getAncestorTagIDs (Suc depth) d tagID ancestors =
     (if tagID = '''' \<or> tagID = ''0'' then Some ancestors
      else do { parentIDs \<leftarrow> getParentTagIDs d tagID;
                getAncestorTagIDs_each depth d parentIDs (insert tagID ancestors) })"
| "getAncestorTagIDs_each depth d [] ancestors = Some ancestors"
| "getAncestorTagIDs_each depth d (i # ids) ancestors =
     do { ancestors' \<leftarrow> getAncestorTagIDs depth d i ancestors;
          getAncestorTagIDs_each depth d ids ancestors' }"

text \<open>
  \<open>getTagID\<close>: a name is looked up directly; a path resolves to its last component when
  every other component names an ancestor of it. The inner calls of \<open>getTagID\<close> (on the
  components) use the same depth budget. The \<open>for\<close> loop over \<open>parts\<close> with its early
  \<open>return ""\<close> is \<open>getTagID_parts\<close>, which takes the inner \<open>getTagID\<close> as an argument.
\<close>

fun getTagID_parts ::
  "(string \<Rightarrow> string option) \<Rightarrow> string set \<Rightarrow> string list \<Rightarrow> string \<Rightarrow> string option" where
  "getTagID_parts inner ancestorIDs [] tagID = Some tagID"
| "getTagID_parts inner ancestorIDs (part # parts) tagID =
     do { partID \<leftarrow> inner part;
          if partID \<notin> ancestorIDs then Some ''''
          else getTagID_parts inner ancestorIDs parts tagID }"

fun getTagID :: "nat \<Rightarrow> db \<Rightarrow> string \<Rightarrow> string option" where
  "getTagID 0 d tagPath = None"
| "getTagID (Suc depth) d tagPath =
     (if tagPath = '''' then Some ''''
      else if tagPath = ''/'' then Some ''0''
      else if hd tagPath = CHR ''/'' then
        (let parts = splitPathIntoParts tagPath;
             leaf = fst (popBackAndRemove parts);
             parts = snd (popBackAndRemove parts)
         in do { tagID \<leftarrow> getTagID depth d leaf;
                 ancestorIDs \<leftarrow> getAncestorTagIDs depth d tagID {};
                 getTagID_parts (getTagID depth d) ancestorIDs parts tagID })
      else dbExecuteSV (GET_TAG_ID d tagPath))"

text \<open>
  \<open>getParentTagIDFromPath\<close>: \<open>substr(0, find_last_of('/'))\<close>; with no \<open>/\<close> the count is
  \<open>npos\<close> and the substring is the whole path.
\<close>

definition getParentTagIDFromPath :: "nat \<Rightarrow> db \<Rightarrow> string \<Rightarrow> string option" where
  "getParentTagIDFromPath depth d tagPath =
     (let parentTag = (case find_last_of tagPath CHR ''/'' of
                         None \<Rightarrow> tagPath | Some p \<Rightarrow> substr tagPath 0 p)
      in if parentTag = '''' then Some ''0'' else getTagID depth d parentTag)"

fun getTaggedFileID_loop :: "db \<Rightarrow> string list \<Rightarrow> string \<Rightarrow> string option" where
  "getTaggedFileID_loop d [] fname = Some ''''"
| "getTaggedFileID_loop d (fileID # fileIDs) fname =
     do { n \<leftarrow> getFilenameFromID d fileID;
          if fname = n then Some fileID else getTaggedFileID_loop d fileIDs fname }"

definition getTaggedFileID :: "db \<Rightarrow> string \<Rightarrow> string \<Rightarrow> string option" where
  "getTaggedFileID d parentTagID fname =
     (if parentTagID = '''' then Some ''''
      else do { fileIDs \<leftarrow> getFileIDsUnderTagID d parentTagID;
                getTaggedFileID_loop d fileIDs fname })"

fun getFilenamesUnderTagID_loop :: "db \<Rightarrow> string list \<Rightarrow> string list \<Rightarrow> string list option" where
  "getFilenamesUnderTagID_loop d [] filenames = Some filenames"
| "getFilenamesUnderTagID_loop d (fileID # fileIDs) filenames =
     do { fid \<leftarrow> stoi fileID;
          n \<leftarrow> dbExecuteSV (GET_FILENAME_FROM_ID d fid);
          getFilenamesUnderTagID_loop d fileIDs (filenames @ [n]) }"

definition getFilenamesUnderTagID :: "db \<Rightarrow> string \<Rightarrow> string list option" where
  "getFilenamesUnderTagID d tagID =
     do { fileIDs \<leftarrow> getFileIDsUnderTagID d tagID;
          if fileIDs = [] then Some fileIDs
          else getFilenamesUnderTagID_loop d fileIDs [] }"

definition updateParentTagIDs :: "db \<Rightarrow> string \<Rightarrow> string list \<Rightarrow> db option" where
  "updateParentTagIDs d tagID parentTagIDs =
     do { let serializedIDs = serializeStrings parentTagIDs CHR '';'';
          tid \<leftarrow> stoi tagID;
          Some (UPDATE_PARENT_TAG_IDS d serializedIDs tid) }"

definition updateChildTagIDs :: "db \<Rightarrow> string \<Rightarrow> string list \<Rightarrow> db option" where
  "updateChildTagIDs d tagID childTagIDs =
     do { let serializedIDs = serializeStrings childTagIDs CHR '';'';
          tid \<leftarrow> stoi tagID;
          Some (UPDATE_CHILD_TAG_IDS d serializedIDs tid) }"

definition updateTagFileIDs :: "db \<Rightarrow> string \<Rightarrow> string list \<Rightarrow> db option" where
  "updateTagFileIDs d tagID fileIDs =
     do { let serializedIDs = serializeStrings fileIDs CHR '';'';
          tid \<leftarrow> stoi tagID;
          Some (UPDATE_TAG_FILE_IDS d serializedIDs tid) }"

text \<open>
  \<open>createTag\<close>. The existence check resolves the whole argument \<open>tagPath\<close>, while the id
  of the inserted row is read back by the bare name \<open>tag\<close>. The row is inserted before the
  second \<open>return 1\<close>.
\<close>

definition createTag :: "nat \<Rightarrow> db \<Rightarrow> string \<Rightarrow> (int \<times> db) option" where
  "createTag depth d tagPath =
     do { existing \<leftarrow> getTagID depth d tagPath;
          if existing \<noteq> '''' then Some (EEXIST, d)
          else
            do { let nested = (find_first_of tagPath CHR ''/'' \<noteq> None);
                 let parts = (if nested then splitPathIntoParts tagPath else []);
                 let tag = (if nested then fst (popBackAndRemove parts) else tagPath);
                 let parts = (if nested then snd (popBackAndRemove parts) else parts);
                 parentTagID \<leftarrow> (if nested \<and> parts \<noteq> [] then getTagID depth d (last parts)
                                  else Some ''0'');
                 if parentTagID = '''' then Some (1, d)
                 else
                   do { let parentTags = parentTagID @ '';'';
                        let d = CREATE_TAG d tag parentTags;
                        tagID \<leftarrow> getTagID depth d tag;
                        if tagID = '''' then Some (1, d)
                        else
                          do { childTagIDs \<leftarrow> getChildTagIDs d parentTagID;
                               d \<leftarrow> updateChildTagIDs d parentTagID (childTagIDs @ [tagID]);
                               Some (0, d) } } } }"

text \<open>
  \<open>deleteTag\<close>. When the tag is not in the parent's list, \<open>std::find\<close> returns \<open>end()\<close>
  and \<open>childTagIDs.erase(end())\<close> is undefined by the standard. The libstdc++ \<open>erase\<close>
  then moves nothing and lowers the end of the vector by one: the last element of a
  non-empty list is removed. On an empty list the end moves before the start and the run
  does not return: \<open>None\<close>.
\<close>

fun deleteTag_loop :: "db \<Rightarrow> string list \<Rightarrow> string \<Rightarrow> db option" where
  "deleteTag_loop d [] tagID = Some d"
| "deleteTag_loop d (parentTagID # parentTagIDs) tagID =
     do { childTagIDs \<leftarrow> getChildTagIDs d parentTagID;
          if tagID \<notin> set childTagIDs \<and> childTagIDs = [] then None
          else do { d \<leftarrow> updateChildTagIDs d parentTagID
                          (if tagID \<in> set childTagIDs then remove1 tagID childTagIDs
                           else butlast childTagIDs);
                    deleteTag_loop d parentTagIDs tagID } }"

definition deleteTag :: "nat \<Rightarrow> db \<Rightarrow> string \<Rightarrow> (int \<times> db) option" where
  "deleteTag depth d tagPath =
     do { tagID \<leftarrow> getTagID depth d tagPath;
          if tagID = '''' then Some (ENOENT, d)
          else
            do { fileIDs \<leftarrow> getFileIDsUnderTagID d tagID;
                 childTagIDs \<leftarrow> getChildTagIDs d tagID;
                 if length fileIDs \<noteq> 0 \<or> length childTagIDs \<noteq> 0 then Some (ENOTEMPTY, d)
                 else
                   do { parentTagIDs \<leftarrow> getParentTagIDs d tagID;
                        d \<leftarrow> deleteTag_loop d parentTagIDs tagID;
                        tid \<leftarrow> stoi tagID;
                        Some (0, DELETE_TAG d tid) } } }"

definition tagSingleFile :: "db \<Rightarrow> string \<Rightarrow> string \<Rightarrow> (int \<times> db) option" where
  "tagSingleFile d fileID tagID =
     do { filenames \<leftarrow> getFilenamesUnderTagID d tagID;
          fname \<leftarrow> getFilenameFromID d fileID;
          if fname \<in> set filenames then Some (EEXIST, d)
          else
            do { fileIDs \<leftarrow> getFileIDsUnderTagID d tagID;
                 d \<leftarrow> updateTagFileIDs d tagID (fileIDs @ [fileID]);
                 Some (0, d) } }"

definition untagSingleFile :: "db \<Rightarrow> string \<Rightarrow> string \<Rightarrow> (int \<times> db) option" where
  "untagSingleFile d fileID tagID =
     do { fileIDs \<leftarrow> getFileIDsUnderTagID d tagID;
          if fileID \<notin> set fileIDs then Some (ENOENT, d)
          else
            do { d \<leftarrow> updateTagFileIDs d tagID (remove1 fileID fileIDs);
                 Some (0, d) } }"

text \<open>The folder branches of \<open>tagFiles\<close> and \<open>untagFiles\<close>: one call per file, errors recorded.\<close>

fun tagFiles_loop :: "db \<Rightarrow> string list \<Rightarrow> string \<Rightarrow> int \<Rightarrow> (int \<times> db) option" where
  "tagFiles_loop d [] tagID returnValue = Some (returnValue, d)"
| "tagFiles_loop d (i # ids) tagID returnValue =
     do { (r, d) \<leftarrow> tagSingleFile d i tagID;
          tagFiles_loop d ids tagID (if r = EEXIST then EEXIST else returnValue) }"

definition tagFiles :: "nat \<Rightarrow> db \<Rightarrow> string \<Rightarrow> string \<Rightarrow> (int \<times> db) option" where
  "tagFiles depth d filePath tag =
     do { let parts = splitPathIntoParts filePath;
          let name = fst (popBackAndRemove parts);
          let parts = snd (popBackAndRemove parts);
          parentFolderID \<leftarrow> getFolderID_path d parts;
          tagID \<leftarrow> getTagID depth d tag;
          (created, d) \<leftarrow> (if tagID = '''' then createTag depth d tag else Some (0, d));
          if tagID = '''' \<and> created = 1 then Some (1, d)
          else
            do { tagID \<leftarrow> (if tagID = '''' then getTagID depth d tag else Some tagID);
                 if parentFolderID \<noteq> '''' then
                   do { fileID \<leftarrow> getFileID d name parentFolderID;
                        if fileID \<noteq> '''' then tagSingleFile d fileID tagID
                        else
                          do { folderID \<leftarrow> getFolderID d name parentFolderID;
                               if folderID \<noteq> '''' then
                                 do { fileIDs \<leftarrow> getFileIDsInFolder d folderID;
                                      tagFiles_loop d fileIDs tagID 0 }
                               else Some (ENOENT, d) } }
                 else Some (ENOENT, d) } }"

fun untagFiles_loop :: "db \<Rightarrow> string list \<Rightarrow> string \<Rightarrow> int \<Rightarrow> (int \<times> db) option" where
  "untagFiles_loop d [] tagID returnValue = Some (returnValue, d)"
| "untagFiles_loop d (i # ids) tagID returnValue =
     do { (r, d) \<leftarrow> untagSingleFile d i tagID;
          untagFiles_loop d ids tagID (if r = ENOENT then ENOENT else returnValue) }"

definition untagFiles :: "nat \<Rightarrow> db \<Rightarrow> string \<Rightarrow> string \<Rightarrow> (int \<times> db) option" where
  "untagFiles depth d filePath tag =
     do { let parts = splitPathIntoParts filePath;
          let name = fst (popBackAndRemove parts);
          let parts = snd (popBackAndRemove parts);
          parentFolderID \<leftarrow> getFolderID_path d parts;
          tagID \<leftarrow> getTagID depth d tag;
          if tagID \<noteq> '''' \<and> parentFolderID \<noteq> '''' then
            do { fileID \<leftarrow> getFileID d name parentFolderID;
                 if fileID \<noteq> '''' then untagSingleFile d fileID tagID
                 else
                   do { folderID \<leftarrow> getFolderID d name parentFolderID;
                        if folderID \<noteq> '''' then
                          do { fileIDs \<leftarrow> getFileIDsInFolder d folderID;
                               untagFiles_loop d fileIDs tagID 0 }
                        else Some (ENOENT, d) } }
          else Some (ENOENT, d) }"

text \<open>
  \<open>nestTag\<close> and \<open>unnestTag\<close> take tag ids, as \<open>getTagID\<close> returned them to the dispatcher.
\<close>

definition nestTag :: "nat \<Rightarrow> db \<Rightarrow> string \<Rightarrow> string \<Rightarrow> (int \<times> db) option" where
  "nestTag depth d tagID parentTagID =
     (if tagID = '''' \<or> parentTagID = '''' then Some (ENOENT, d)
      else
        do { childIDs \<leftarrow> getChildTagIDs d parentTagID;
             if tagID \<in> set childIDs then Some (EEXIST, d)
             else
               do { let childIDs = childIDs @ [tagID];
                    parentIDs \<leftarrow> getParentTagIDs d tagID;
                    if parentTagID \<in> set parentIDs then Some (EEXIST, d)
                    else
                      do { let parentIDs = parentIDs @ [parentTagID];
                           ancestorIDs \<leftarrow> getAncestorTagIDs depth d parentTagID {};
                           if tagID \<in> ancestorIDs then Some (1, d)
                           else
                             do { d \<leftarrow> updateChildTagIDs d parentTagID childIDs;
                                  d \<leftarrow> updateParentTagIDs d tagID parentIDs;
                                  Some (0, d) } } } })"

definition unnestTag :: "db \<Rightarrow> string \<Rightarrow> string \<Rightarrow> (int \<times> db) option" where
  "unnestTag d tagID parentTagID =
     (if tagID = '''' \<or> parentTagID = '''' then Some (ENOENT, d)
      else
        do { childIDs \<leftarrow> getChildTagIDs d parentTagID;
             if tagID \<notin> set childIDs then Some (ENOENT, d)
             else
               do { let childIDs = remove1 tagID childIDs;
                    parentIDs \<leftarrow> getParentTagIDs d tagID;
                    if parentTagID \<notin> set parentIDs then Some (ENOENT, d)
                    else
                      do { let parentIDs = remove1 parentTagID parentIDs;
                           d \<leftarrow> updateChildTagIDs d parentTagID childIDs;
                           d \<leftarrow> updateParentTagIDs d tagID parentIDs;
                           Some (0, d) } } })"

text \<open>
  \<open>getFileTags\<close>: the name of every tag row whose \<open>files_ids\<close> lists the file, once per
  occurrence of the id. Column 1 of a row of \<open>GET_FILE_TAGS\<close> is the name, column 2 the list.
\<close>

definition getFileTags :: "db \<Rightarrow> string \<Rightarrow> string list option" where
  "getFileTags d fileID =
     do { fname \<leftarrow> getFilenameFromID d fileID;
          if fname = '''' then Some []
          else
            do { results \<leftarrow> dbExecuteMR (GET_FILE_TAGS d);
                 Some (concat (map (\<lambda>row. map (\<lambda>i. row ! 1)
                                     (filter (\<lambda>i. i = fileID) (deserializeStrings (row ! 2) CHR '';'')))
                               results)) } }"

text \<open>
  \<open>std::set_intersection\<close> on two sorted ranges, appending to the output.
\<close>

fun set_intersection :: "string list \<Rightarrow> string list \<Rightarrow> string list" where
  "set_intersection [] ys = []"
| "set_intersection (x # xs) [] = []"
| "set_intersection (x # xs) (y # ys) =
     (if x < y then set_intersection xs (y # ys)
      else if y < x then set_intersection (x # xs) ys
      else x # set_intersection xs ys)"

text \<open>
  \<open>findFileIDsWithTags\<close>. \<open>tags[0]\<close> is read before the size check, which is undefined on
  an empty vector: \<open>None\<close>. In the loop the output iterator appends to \<open>result\<close>, and
  \<open>result.empty()\<close> only tests the vector, so \<open>result\<close> keeps its elements from one round
  to the next.
\<close>

fun findFileIDsWithTags_loop ::
  "nat \<Rightarrow> db \<Rightarrow> string list \<Rightarrow> string list \<Rightarrow> string list \<Rightarrow> string list option" where
  "findFileIDsWithTags_loop depth d [] matches result = Some matches"
| "findFileIDsWithTags_loop depth d (tag # rest) matches result =
     do { tagID \<leftarrow> getTagID depth d tag;
          if tagID = '''' then Some []
          else
            do { fileIDs \<leftarrow> getFileIDsUnderTagID d tagID;
                 let matches = sort matches;
                 let fileIDs = sort fileIDs;
                 let result = result @ set_intersection matches fileIDs;
                 findFileIDsWithTags_loop depth d rest result result } }"

definition findFileIDsWithTags :: "nat \<Rightarrow> db \<Rightarrow> string list \<Rightarrow> string list option" where
  "findFileIDsWithTags depth d tags =
     (case tags of
        [] \<Rightarrow> None
      | tag0 # rest \<Rightarrow>
          do { tagID \<leftarrow> getTagID depth d tag0;
               if tagID = '''' then Some []
               else
                 do { matches \<leftarrow> getFileIDsUnderTagID d tagID;
                      findFileIDsWithTags_loop depth d rest matches [] } })"

text \<open>
  \<open>findFileIDsWithAnyOfTags\<close> collects the ids in a \<open>std::set\<close>, whose iteration order is
  the order of the strings.
\<close>

fun findFileIDsWithAnyOfTags_loop ::
  "nat \<Rightarrow> db \<Rightarrow> string list \<Rightarrow> string set \<Rightarrow> string list option" where
  "findFileIDsWithAnyOfTags_loop depth d [] matches = Some (sorted_list_of_set matches)"
| "findFileIDsWithAnyOfTags_loop depth d (tag # rest) matches =
     do { tagID \<leftarrow> getTagID depth d tag;
          if tagID = '''' then Some []
          else
            do { fileIDs \<leftarrow> getFileIDsUnderTagID d tagID;
                 findFileIDsWithAnyOfTags_loop depth d rest (matches \<union> set fileIDs) } }"

definition findFileIDsWithAnyOfTags :: "nat \<Rightarrow> db \<Rightarrow> string list \<Rightarrow> string list option" where
  "findFileIDsWithAnyOfTags depth d tags =
     (if length tags = 0 then Some []
      else findFileIDsWithAnyOfTags_loop depth d tags {})"

text \<open>
  \<open>renameTaggedPath\<close>. The results of \<open>untagSingleFile\<close>, \<open>tagSingleFile\<close>, \<open>unnestTag\<close>
  and \<open>nestTag\<close> are discarded; only their effect on the store is kept.
\<close>

definition renameTaggedPath :: "nat \<Rightarrow> db \<Rightarrow> string \<Rightarrow> string \<Rightarrow> (int \<times> db) option" where
  "renameTaggedPath depth d oldPath newPath =
     do { oldParentTagID \<leftarrow> getParentTagIDFromPath depth d oldPath;
          newParentTagID \<leftarrow> getParentTagIDFromPath depth d newPath;
          if oldParentTagID = '''' \<or> newParentTagID = '''' then Some (ENOENT, d)
          else
            do { let oldName = getFilename oldPath;
                 let newName = getFilename newPath;
                 oldTagID \<leftarrow> getTagID depth d oldName;
                 newTagID \<leftarrow> getTagID depth d newName;
                 oldFileID \<leftarrow> getTaggedFileID d oldParentTagID oldName;
                 newFileID \<leftarrow> getTaggedFileID d newParentTagID newName;
                 if oldFileID \<noteq> '''' \<and> newTagID = '''' \<and> newFileID = '''' then
                   (if oldName \<noteq> newName then Some (1, d)
                    else
                      do { (r, d) \<leftarrow> untagSingleFile d oldFileID oldParentTagID;
                           (r, d) \<leftarrow> tagSingleFile d oldFileID newParentTagID;
                           Some (0, d) })
                 else if oldTagID \<noteq> '''' \<and> newFileID = '''' then
                   (if oldTagID \<noteq> newTagID \<and> newTagID \<noteq> '''' then Some (1, d)
                    else
                      do { d \<leftarrow> (if newParentTagID \<noteq> oldParentTagID then
                                    do { (r, d) \<leftarrow> unnestTag d oldTagID oldParentTagID;
                                         (r, d) \<leftarrow> nestTag depth d oldTagID newParentTagID;
                                         Some d }
                                  else Some d);
                           d \<leftarrow> (if newTagID = '''' then
                                    do { tid \<leftarrow> stoi oldTagID;
                                         Some (RENAME_TAGGED_PATH d newName tid) }
                                  else Some d);
                           Some (0, d) })
                 else Some (1, d) } }"

section \<open>File deletion and renaming (TFSManager.cpp)\<close>

text \<open>
  The blob store is outside the metadata store. \<open>rootDirectory\<close> is the directory of the
  blobs, and \<open>unlink\<close> gives, for a path, the return value of \<open>unlink(2)\<close> and the value
  it leaves in \<open>errno\<close>.
\<close>

record blob_store =
  rootDirectory :: string
  unlink :: "string \<Rightarrow> int \<times> int"

text \<open>
  The loop of \<open>deleteFile\<close> over all tag ids. \<open>savedTagIDs\<close> is a pointer that may be
  null: \<open>None\<close> for \<open>NULL\<close>. \<open>fileIDs.erase(result)\<close> removes the one element that
  \<open>std::find\<close> found, the first occurrence.
\<close>

fun deleteFile_loop ::
  "db \<Rightarrow> string list \<Rightarrow> string \<Rightarrow> string list option \<Rightarrow> (db \<times> string list option) option" where
  "deleteFile_loop d [] fileID savedTagIDs = Some (d, savedTagIDs)"
| "deleteFile_loop d (tagID # allTagIDs) fileID savedTagIDs =
     do { fileIDs \<leftarrow> getFileIDsUnderTagID d tagID;
          if fileID \<in> set fileIDs then
            do { d \<leftarrow> updateTagFileIDs d tagID (remove1 fileID fileIDs);
                 deleteFile_loop d allTagIDs fileID (map_option (\<lambda>s. s @ [tagID]) savedTagIDs) }
          else deleteFile_loop d allTagIDs fileID savedTagIDs }"

definition deleteFile ::
  "blob_store \<Rightarrow> db \<Rightarrow> string \<Rightarrow> string list option \<Rightarrow> (int \<times> db \<times> string list option) option"
  where
  "deleteFile env d filePath savedTagIDs =
     do { let parts = splitPathIntoParts filePath;
          let fname = fst (popBackAndRemove parts);
          let parts = snd (popBackAndRemove parts);
          parentFolderID \<leftarrow> getFolderID_path d parts;
          if parentFolderID \<noteq> '''' then
            do { h \<leftarrow> getHash d fname parentFolderID;
                 if h \<noteq> '''' then
                   do { let blobPath = rootDirectory env @ ''/'' @ h;
                        answer \<leftarrow> dbExecuteSV (COUNT_HASH_GT_1 d h);
                        more \<leftarrow> stoi answer;
                        let isLastFileWithHash = (more = 0);
                        let returnValue =
                          (if isLastFileWithHash then
                             (if fst (unlink env blobPath) = - 1 then snd (unlink env blobPath)
                              else fst (unlink env blobPath))
                           else 0);
                        if returnValue = 0 then
                          do { fileID \<leftarrow> getFileID d fname parentFolderID;
                               allTagIDs \<leftarrow> getAllTagIDs d;
                               let savedTagIDs = map_option (\<lambda>s. []) savedTagIDs;
                               (d, savedTagIDs) \<leftarrow> deleteFile_loop d allTagIDs fileID savedTagIDs;
                               fid \<leftarrow> stoi fileID;
                               Some (returnValue, DELETE_FILE d fid, savedTagIDs) }
                        else Some (returnValue, d, savedTagIDs) }
                 else Some (1, d, savedTagIDs) }
          else Some (1, d, savedTagIDs) }"

text \<open>
  \<open>renamePath\<close>. The first loop returns \<open>EEXIST\<close> at the first tag of the source file
  that already holds a file named \<open>newName\<close>; the second re-attaches the renamed file to
  the tags \<open>deleteFile\<close> saved. The result of \<open>deleteFile\<close> is discarded.
\<close>

fun renamePath_conflict :: "nat \<Rightarrow> db \<Rightarrow> string list \<Rightarrow> string \<Rightarrow> bool option" where
  "renamePath_conflict depth d [] newName = Some False"
| "renamePath_conflict depth d (tag # fileTags) newName =
     do { tagID \<leftarrow> getTagID depth d tag;
          filenames \<leftarrow> getFilenamesUnderTagID d tagID;
          if newName \<in> set filenames then Some True
          else renamePath_conflict depth d fileTags newName }"

fun renamePath_reattach :: "db \<Rightarrow> string list \<Rightarrow> string \<Rightarrow> db option" where
  "renamePath_reattach d [] oldFileID = Some d"
| "renamePath_reattach d (tagID # savedTagIDs) oldFileID =
     do { fileIDs \<leftarrow> getFileIDsUnderTagID d tagID;
          d \<leftarrow> updateTagFileIDs d tagID (fileIDs @ [oldFileID]);
          renamePath_reattach d savedTagIDs oldFileID }"

definition renamePath ::
  "blob_store \<Rightarrow> nat \<Rightarrow> db \<Rightarrow> string \<Rightarrow> string \<Rightarrow> (int \<times> db) option" where
  "renamePath env depth d oldPath newPath =
     do { let parts = splitPathIntoParts oldPath;
          let oldName = fst (popBackAndRemove parts);
          let parts = snd (popBackAndRemove parts);
          oldParentFolderID \<leftarrow> getFolderID_path d parts;
          oldFolderID \<leftarrow> (if oldParentFolderID \<noteq> '''' then getFolderID d oldName oldParentFolderID
                          else Some '''');
          oldFileID \<leftarrow> (if oldParentFolderID \<noteq> '''' then getFileID d oldName oldParentFolderID
                        else Some '''');
          let parts = splitPathIntoParts newPath;
          let newName = fst (popBackAndRemove parts);
          let parts = snd (popBackAndRemove parts);
          newParentFolderID \<leftarrow> getFolderID_path d parts;
          newFolderID \<leftarrow> (if newParentFolderID \<noteq> '''' then getFolderID d newName newParentFolderID
                          else Some '''');
          newFileID \<leftarrow> (if newParentFolderID \<noteq> '''' then getFileID d newName newParentFolderID
                        else Some '''');
          if oldFileID \<noteq> '''' \<and> newFolderID = '''' then
            do { fileTags \<leftarrow> getFileTags d oldFileID;
                 conflict \<leftarrow> renamePath_conflict depth d fileTags newName;
                 if conflict then Some (EEXIST, d)
                 else
                   do { (d, savedTagIDs) \<leftarrow>
                          (if newFileID \<noteq> '''' then
                             do { (r, d, saved) \<leftarrow> deleteFile env d newPath (Some []);
                                  Some (d, the saved) }
                           else Some (d, []));
                        newParent \<leftarrow> stoi newParentFolderID;
                        oldFile \<leftarrow> stoi oldFileID;
                        let d = RENAME_PATH_1 d newName newParent oldFile;
                        d \<leftarrow> renamePath_reattach d savedTagIDs oldFileID;
                        Some (0, d) } }
          else if oldFolderID \<noteq> '''' \<and> newFolderID = '''' \<and> newFileID = '''' then
            do { newParent \<leftarrow> stoi newParentFolderID;
                 oldFolder \<leftarrow> stoi oldFolderID;
                 Some (0, RENAME_PATH_2 d newName newParent oldFolder) }
          else Some (1, d) }"

section \<open>Requests\<close>

text \<open>
  The operator and bridge requests of \<open>dispatch\<close> that change the tag graph or the tagging
  of files, with their arguments already split. \<open>QH_NEST\<close> and \<open>QH_UNNEST\<close> resolve both
  arguments with \<open>getTagID\<close> before the call. \<open>FD_MKDIR\<close>, \<open>FD_RMDIR\<close> and \<open>FD_RENAME\<close> are
  the bridge requests as handled in tag-view mode.
\<close>

datatype request =
    QH_CREATE_TAG string
  | QH_DELETE_TAG string
  | QH_NEST string string
  | QH_UNNEST string string
  | QH_TAG string string
  | QH_UNTAG string string
  | FD_MKDIR string
  | FD_RMDIR string
  | FD_RENAME string string

fun dispatch :: "nat \<Rightarrow> db \<Rightarrow> request \<Rightarrow> db option" where
  "dispatch depth d (QH_CREATE_TAG tag) = map_option snd (createTag depth d tag)"
| "dispatch depth d (QH_DELETE_TAG tag) = map_option snd (deleteTag depth d tag)"
| "dispatch depth d (QH_NEST tag parent) =
     do { tagID \<leftarrow> getTagID depth d tag;
          parentTagID \<leftarrow> getTagID depth d parent;
          map_option snd (nestTag depth d tagID parentTagID) }"
| "dispatch depth d (QH_UNNEST tag parent) =
     do { tagID \<leftarrow> getTagID depth d tag;
          parentTagID \<leftarrow> getTagID depth d parent;
          map_option snd (unnestTag d tagID parentTagID) }"
| "dispatch depth d (QH_TAG path tag) = map_option snd (tagFiles depth d path tag)"
| "dispatch depth d (QH_UNTAG path tag) = map_option snd (untagFiles depth d path tag)"
| "dispatch depth d (FD_MKDIR path) = map_option snd (createTag depth d path)"
| "dispatch depth d (FD_RMDIR path) = map_option snd (deleteTag depth d path)"
| "dispatch depth d (FD_RENAME oldPath newPath) =
     map_option snd (renameTaggedPath depth d oldPath newPath)"

text \<open>The run loop: requests are handled one after the other, in receive order.\<close>

fun run :: "nat \<Rightarrow> db \<Rightarrow> request list \<Rightarrow> db option" where
  "run depth d [] = Some d"
| "run depth d (m # ms) = do { d \<leftarrow> dispatch depth d m; run depth d ms }"

section \<open>Path resolution as the specification words it\<close>



section \<open>The tag graph\<close>

text \<open>
  The edges of the nesting graph as the store records them: from a tag id to every id in
  its \<open>child_tags\<close> list.
\<close>

definition child_edges :: "db \<Rightarrow> (string \<times> string) set" where
  "child_edges d = {(t, c). \<exists>cs. getChildTagIDs d t = Some cs \<and> c \<in> set cs}"

text \<open>
  The ancestors of a tag as the specification words them: the transitive closure over
  \<open>parent_tags\<close>, starting from the tag itself. The reserved root id \<open>0\<close> and the empty
  id are neither members nor starting points of an edge.
\<close>

definition parent_edges :: "db \<Rightarrow> (string \<times> string) set" where
  "parent_edges d =
     {(t, p). t \<noteq> '''' \<and> t \<noteq> ''0'' \<and> (\<exists>ps. getParentTagIDs d t = Some ps \<and> p \<in> set ps)}"

definition ancestors_of :: "db \<Rightarrow> string \<Rightarrow> string set" where
  "ancestors_of d t = {a. (t, a) \<in> (parent_edges d)\<^sup>* \<and> a \<noteq> '''' \<and> a \<noteq> ''0''}"

text \<open>
  The same closure without the special case for the root: every id listed in
  \<open>parent_tags\<close> is a parent, and the closure starts from the tag itself.
\<close>

definition listed_parent_edges :: "db \<Rightarrow> (string \<times> string) set" where
  "listed_parent_edges d = {(t, p). \<exists>ps. getParentTagIDs d t = Some ps \<and> p \<in> set ps}"

definition closure_over_parent_tags :: "db \<Rightarrow> string \<Rightarrow> string set" where
  "closure_over_parent_tags d t = {a. (t, a) \<in> (listed_parent_edges d)\<^sup>*}"

text \<open>
  An id list as \<open>serializeStrings\<close> can store it and \<open>deserializeStrings\<close> give it back:
  no element is empty or contains the separator. A tag id has a row when the integer it
  parses to is the \<open>tag_id\<close> of a row of the tags table.
\<close>

definition clean_ids :: "string list \<Rightarrow> bool" where
  "clean_ids ids = list_all (\<lambda>i. i \<noteq> [] \<and> CHR '';'' \<notin> set i) ids"

definition has_tag_row :: "db \<Rightarrow> string \<Rightarrow> bool" where
  "has_tag_row d tagID =
     (case stoi tagID of None \<Rightarrow> False | Some n \<Rightarrow> n \<in> tag_id ` set (tags_table d))"

section \<open>Concrete stores\<close>

text \<open>A root folder holding one file \<open>/x\<close>, and one holding two files \<open>/a\<close> and \<open>/b\<close>.\<close>

definition one_file_db :: db where
  "one_file_db = initDB\<lparr>files_table :=
      [\<lparr>file_id = 1, filename = ''x'', hash = ''H1'', file_parent_folder = 1\<rparr>]\<rparr>"

definition two_files_db :: db where
  "two_files_db = initDB\<lparr>files_table :=
      [\<lparr>file_id = 1, filename = ''a'', hash = ''H1'', file_parent_folder = 1\<rparr>,
       \<lparr>file_id = 2, filename = ''b'', hash = ''H2'', file_parent_folder = 1\<rparr>]\<rparr>"

text \<open>\<open>/x\<close> tagged with \<open>A\<close> and \<open>B\<close>, and an empty tag \<open>C\<close>.\<close>

definition search_db :: db where
  "search_db =
     \<lparr>tags_table =
        [\<lparr>tag_id = 0, tag_name = ''__TaggableFS__//'', tag_parent_folder = - 1,
          parent_tags = Some '''', child_tags = Some ''2;3;4;'', files_ids = Some ''''\<rparr>,
         \<lparr>tag_id = 1, tag_name = ''/'', tag_parent_folder = - 1,
          parent_tags = Some '''', child_tags = Some '''', files_ids = Some ''''\<rparr>,
         \<lparr>tag_id = 2, tag_name = ''A'', tag_parent_folder = 0,
          parent_tags = Some ''0;'', child_tags = Some '''', files_ids = Some ''1;''\<rparr>,
         \<lparr>tag_id = 3, tag_name = ''B'', tag_parent_folder = 0,
          parent_tags = Some ''0;'', child_tags = Some '''', files_ids = Some ''1;''\<rparr>,
         \<lparr>tag_id = 4, tag_name = ''C'', tag_parent_folder = 0,
          parent_tags = Some ''0;'', child_tags = Some '''', files_ids = Some ''''\<rparr>],
      files_table =
        [\<lparr>file_id = 1, filename = ''x'', hash = ''H1'', file_parent_folder = 1\<rparr>]\<rparr>"

text \<open>The store after \<open>create-tag T\<close>, \<open>create-tag /T/P\<close>, \<open>create-tag /P/T\<close>.\<close>

definition cyclic_db :: db where
  "cyclic_db =
     \<lparr>tags_table =
        [\<lparr>tag_id = 0, tag_name = ''__TaggableFS__//'', tag_parent_folder = - 1,
          parent_tags = Some '''', child_tags = Some ''2;'', files_ids = Some ''''\<rparr>,
         \<lparr>tag_id = 1, tag_name = ''/'', tag_parent_folder = - 1,
          parent_tags = Some '''', child_tags = Some '''', files_ids = Some ''''\<rparr>,
         \<lparr>tag_id = 2, tag_name = ''T'', tag_parent_folder = 0,
          parent_tags = Some ''0;'', child_tags = Some ''3;'', files_ids = Some ''''\<rparr>,
         \<lparr>tag_id = 3, tag_name = ''P'', tag_parent_folder = 0,
          parent_tags = Some ''2;'', child_tags = Some ''2;'', files_ids = Some ''''\<rparr>,
         \<lparr>tag_id = 4, tag_name = ''T'', tag_parent_folder = 0,
          parent_tags = Some ''3;'', child_tags = Some '''', files_ids = Some ''''\<rparr>],
      files_table = []\<rparr>"

text \<open>The store after \<open>create-tag P\<close>, \<open>create-tag T\<close>, \<open>create-tag /P/T\<close>.\<close>

definition asymmetric_db :: db where
  "asymmetric_db =
     \<lparr>tags_table =
        [\<lparr>tag_id = 0, tag_name = ''__TaggableFS__//'', tag_parent_folder = - 1,
          parent_tags = Some '''', child_tags = Some ''2;3;'', files_ids = Some ''''\<rparr>,
         \<lparr>tag_id = 1, tag_name = ''/'', tag_parent_folder = - 1,
          parent_tags = Some '''', child_tags = Some '''', files_ids = Some ''''\<rparr>,
         \<lparr>tag_id = 2, tag_name = ''P'', tag_parent_folder = 0,
          parent_tags = Some ''0;'', child_tags = Some ''3;'', files_ids = Some ''''\<rparr>,
         \<lparr>tag_id = 3, tag_name = ''T'', tag_parent_folder = 0,
          parent_tags = Some ''0;'', child_tags = Some '''', files_ids = Some ''''\<rparr>,
         \<lparr>tag_id = 4, tag_name = ''T'', tag_parent_folder = 0,
          parent_tags = Some ''2;'', child_tags = Some '''', files_ids = Some ''''\<rparr>],
      files_table = []\<rparr>"

text \<open>\<open>/b\<close> tagged with \<open>R\<close>, and the same store after \<open>/a\<close> was renamed to \<open>/b\<close> while the
  blob of \<open>/b\<close> could not be unlinked.\<close>

definition tagged_db :: db where
  "tagged_db =
     \<lparr>tags_table =
        [\<lparr>tag_id = 0, tag_name = ''__TaggableFS__//'', tag_parent_folder = - 1,
          parent_tags = Some '''', child_tags = Some ''2;'', files_ids = Some ''''\<rparr>,
         \<lparr>tag_id = 1, tag_name = ''/'', tag_parent_folder = - 1,
          parent_tags = Some '''', child_tags = Some '''', files_ids = Some ''''\<rparr>,
         \<lparr>tag_id = 2, tag_name = ''R'', tag_parent_folder = 0,
          parent_tags = Some ''0;'', child_tags = Some '''', files_ids = Some ''2;''\<rparr>],
      files_table =
        [\<lparr>file_id = 1, filename = ''a'', hash = ''H1'', file_parent_folder = 1\<rparr>,
         \<lparr>file_id = 2, filename = ''b'', hash = ''H2'', file_parent_folder = 1\<rparr>]\<rparr>"

definition renamed_db :: db where
  "renamed_db = tagged_db\<lparr>files_table :=
      [\<lparr>file_id = 1, filename = ''b'', hash = ''H1'', file_parent_folder = 1\<rparr>,
       \<lparr>file_id = 2, filename = ''b'', hash = ''H2'', file_parent_folder = 1\<rparr>]\<rparr>"

text \<open>The store after \<open>create-tag A\<close>, and the same store after the root was nested under
  \<open>A\<close>.\<close>

definition one_tag_db :: db where
  "one_tag_db =
     \<lparr>tags_table =
        [\<lparr>tag_id = 0, tag_name = ''__TaggableFS__//'', tag_parent_folder = - 1,
          parent_tags = Some '''', child_tags = Some ''2;'', files_ids = Some ''''\<rparr>,
         \<lparr>tag_id = 1, tag_name = ''/'', tag_parent_folder = - 1,
          parent_tags = Some '''', child_tags = Some '''', files_ids = Some ''''\<rparr>,
         \<lparr>tag_id = 2, tag_name = ''A'', tag_parent_folder = 0,
          parent_tags = Some ''0;'', child_tags = Some '''', files_ids = Some ''''\<rparr>],
      files_table = []\<rparr>"

definition root_nested_db :: db where
  "root_nested_db =
     \<lparr>tags_table =
        [\<lparr>tag_id = 0, tag_name = ''__TaggableFS__//'', tag_parent_folder = - 1,
          parent_tags = Some ''2;'', child_tags = Some ''2;'', files_ids = Some ''''\<rparr>,
         \<lparr>tag_id = 1, tag_name = ''/'', tag_parent_folder = - 1,
          parent_tags = Some '''', child_tags = Some '''', files_ids = Some ''''\<rparr>,
         \<lparr>tag_id = 2, tag_name = ''A'', tag_parent_folder = 0,
          parent_tags = Some ''0;'', child_tags = Some ''0;'', files_ids = Some ''''\<rparr>],
      files_table = []\<rparr>"

text \<open>The store after \<open>create-tag A\<close>, \<open>create-tag /A/B\<close>, \<open>create-tag C\<close>.\<close>

definition nest_db :: db where
  "nest_db =
     \<lparr>tags_table =
        [\<lparr>tag_id = 0, tag_name = ''__TaggableFS__//'', tag_parent_folder = - 1,
          parent_tags = Some '''', child_tags = Some ''2;4;'', files_ids = Some ''''\<rparr>,
         \<lparr>tag_id = 1, tag_name = ''/'', tag_parent_folder = - 1,
          parent_tags = Some '''', child_tags = Some '''', files_ids = Some ''''\<rparr>,
         \<lparr>tag_id = 2, tag_name = ''A'', tag_parent_folder = 0,
          parent_tags = Some ''0;'', child_tags = Some ''3;'', files_ids = Some ''''\<rparr>,
         \<lparr>tag_id = 3, tag_name = ''B'', tag_parent_folder = 0,
          parent_tags = Some ''2;'', child_tags = Some '''', files_ids = Some ''''\<rparr>,
         \<lparr>tag_id = 4, tag_name = ''C'', tag_parent_folder = 0,
          parent_tags = Some ''0;'', child_tags = Some '''', files_ids = Some ''''\<rparr>],
      files_table = []\<rparr>"


text \<open>A blob store whose \<open>unlink\<close> fails with \<open>EACCES\<close> (13), and one whose \<open>unlink\<close> succeeds.\<close>

definition failing_store :: blob_store where
  "failing_store = \<lparr>rootDirectory = ''/srv/tfs'', unlink = (\<lambda>p. (- 1, 13))\<rparr>"

definition working_store :: blob_store where
  "working_store = \<lparr>rootDirectory = ''/srv/tfs'', unlink = (\<lambda>p. (0, 0))\<rparr>"


section \<open>Decimal text of an integer and \<open>std::stoi\<close>\<close>
















section \<open>Round trip of the id-list encoding\<close>

lemma serializeStrings_loop_acc:
  "serializeStrings_loop acc ids sep = acc @ serializeStrings_loop [] ids sep"
proof (induction ids arbitrary: acc)
  case Nil
  show ?case by simp
next
  case (Cons i ids)
  show ?case
  proof (cases "i = []")
    case True
    then show ?thesis using Cons.IH [of acc] by simp
  next
    case False
    then show ?thesis
      using Cons.IH [of "acc @ i @ [sep]"] Cons.IH [of "i @ [sep]"] by simp
  qed
qed

lemma serializeStrings_Nil [simp]: "serializeStrings [] sep = []"
  by (simp add: serializeStrings_def)

lemma serializeStrings_Cons:
  "serializeStrings (i # ids) sep =
     (if i = [] then serializeStrings ids sep else i @ [sep] @ serializeStrings ids sep)"
  unfolding serializeStrings_def
  using serializeStrings_loop_acc [of "i @ [sep]" ids sep] by simp

lemma serializeStrings_filter:
  "serializeStrings (filter (\<lambda>i. i \<noteq> []) ids) sep = serializeStrings ids sep"
  by (induction ids) (simp_all add: serializeStrings_Cons)

lemma deserializeStrings_loop_scan:
  assumes "sep \<notin> set w" "b \<le> e" "e \<le> b + length w" "b = length a"
  shows "deserializeStrings_loop (a @ w @ sep # r) sep b e ids =
         deserializeStrings_loop (a @ w @ sep # r) sep (b + length w + 1) (b + length w + 1)
           (ids @ [w])"
  using assms
proof (induction "b + length w - e" arbitrary: e)
  case 0
  then have e: "e = length a + length w" by simp
  have at: "(a @ w @ sep # r) ! e = sep"
    by (simp add: e nth_append)
  have lt: "e < length (a @ w @ sep # r)" by (simp add: e)
  have sub: "substr (a @ w @ sep # r) b (e - b) = w"
    using 0 by (simp add: substr_def e)
  show ?case
    using at lt sub 0 e
    by (subst deserializeStrings_loop.simps) simp
next
  case (Suc n)
  then have lt_w: "e - length a < length w" and ge: "length a \<le> e" by simp_all
  have "(a @ w @ sep # r) ! e = w ! (e - length a)"
    using lt_w ge by (simp add: nth_append)
  moreover have "w ! (e - length a) \<in> set w" using lt_w by simp
  ultimately have ne: "(a @ w @ sep # r) ! e \<noteq> sep" using Suc.prems(1) by metis
  have lt: "e < length (a @ w @ sep # r)" using lt_w ge by simp
  have step: "deserializeStrings_loop (a @ w @ sep # r) sep b e ids =
              deserializeStrings_loop (a @ w @ sep # r) sep b (e + 1) ids"
    using ne lt by (subst deserializeStrings_loop.simps) simp
  have "deserializeStrings_loop (a @ w @ sep # r) sep b (e + 1) ids =
        deserializeStrings_loop (a @ w @ sep # r) sep (b + length w + 1) (b + length w + 1)
          (ids @ [w])"
    using Suc by (intro Suc.hyps(1)) simp_all
  with step show ?case by simp
qed

lemma deserializeStrings_loop_serialized:
  assumes "\<forall>i \<in> set v. i \<noteq> [] \<and> sep \<notin> set i"
  shows "deserializeStrings_loop (a @ serializeStrings v sep) sep (length a) (length a) ids
         = ids @ v"
  using assms
proof (induction v arbitrary: a ids)
  case Nil
  show ?case by (subst deserializeStrings_loop.simps) simp
next
  case (Cons w v)
  then have w: "w \<noteq> []" "sep \<notin> set w" by simp_all
  have ser: "a @ serializeStrings (w # v) sep = a @ w @ sep # serializeStrings v sep"
    using w by (simp add: serializeStrings_Cons)
  have "deserializeStrings_loop (a @ w @ sep # serializeStrings v sep) sep (length a) (length a) ids
        = deserializeStrings_loop (a @ w @ sep # serializeStrings v sep) sep
            (length a + length w + 1) (length a + length w + 1) (ids @ [w])"
    using w by (intro deserializeStrings_loop_scan) simp_all
  also have "\<dots> = deserializeStrings_loop ((a @ w @ [sep]) @ serializeStrings v sep) sep
            (length (a @ w @ [sep])) (length (a @ w @ [sep])) (ids @ [w])"
    by simp
  also have "\<dots> = (ids @ [w]) @ v"
    using Cons.prems by (intro Cons.IH) simp
  finally show ?case using ser by simp
qed

lemma deserialize_serialize_clean:
  assumes "\<forall>i \<in> set v. i \<noteq> [] \<and> sep \<notin> set i"
  shows "deserializeStrings (serializeStrings v sep) sep = v"
proof (cases v)
  case Nil
  then show ?thesis
    by (simp add: deserializeStrings_def deserializeStrings_loop.simps)
next
  case (Cons w v')
  with assms have w: "w \<noteq> []" "sep \<notin> set w" and v': "\<forall>i \<in> set v'. i \<noteq> [] \<and> sep \<notin> set i"
    by simp_all
  have ser: "serializeStrings v sep = [] @ w @ sep # serializeStrings v' sep"
    using w Cons by (simp add: serializeStrings_Cons)
  have one: "1 \<le> 0 + length w" using w by (cases w) simp_all
  have "deserializeStrings_loop ([] @ w @ sep # serializeStrings v' sep) sep 0 1 []
        = deserializeStrings_loop ([] @ w @ sep # serializeStrings v' sep) sep
            (0 + length w + 1) (0 + length w + 1) ([] @ [w])"
    using w one by (intro deserializeStrings_loop_scan) simp_all
  also have "\<dots> = deserializeStrings_loop ((w @ [sep]) @ serializeStrings v' sep) sep
            (length (w @ [sep])) (length (w @ [sep])) [w]"
    by simp
  also have "\<dots> = [w] @ v'"
    using v' by (intro deserializeStrings_loop_serialized) simp
  finally show ?thesis using ser Cons by (simp add: deserializeStrings_def)
qed

text \<open>
  C10. For every vector of strings whose elements contain no \<open>;\<close>, deserialising the
  serialised vector gives back the non-empty elements, in order: empty elements are dropped
  by \<open>serializeStrings\<close>, and a vector with only non-empty elements comes back unchanged.
\<close>

theorem serialize_roundtrip:
  "(\<forall>i \<in> set v. CHR '';'' \<notin> set i) \<longrightarrow>
     deserializeStrings (serializeStrings v CHR '';'') CHR '';'' = filter (\<lambda>i. i \<noteq> []) v
     \<and> ((\<forall>i \<in> set v. i \<noteq> []) \<longrightarrow>
          deserializeStrings (serializeStrings v CHR '';'') CHR '';'' = v)"
proof
  assume clean: "\<forall>i \<in> set v. CHR '';'' \<notin> set i"
  have "deserializeStrings (serializeStrings (filter (\<lambda>i. i \<noteq> []) v) CHR '';'') CHR '';''
        = filter (\<lambda>i. i \<noteq> []) v"
    using clean by (intro deserialize_serialize_clean) simp
  then have first: "deserializeStrings (serializeStrings v CHR '';'') CHR '';''
        = filter (\<lambda>i. i \<noteq> []) v"
    by (simp add: serializeStrings_filter)
  moreover have "(\<forall>i \<in> set v. i \<noteq> []) \<longrightarrow> filter (\<lambda>i. i \<noteq> []) v = v"
    by (simp add: filter_id_conv)
  ultimately show "deserializeStrings (serializeStrings v CHR '';'') CHR '';''
        = filter (\<lambda>i. i \<noteq> []) v
     \<and> ((\<forall>i \<in> set v. i \<noteq> []) \<longrightarrow>
          deserializeStrings (serializeStrings v CHR '';'') CHR '';'' = v)"
    by simp
qed

theorem serialize_roundtrip_witness:
  "deserializeStrings (serializeStrings [''12'', '''', ''7''] CHR '';'') CHR '';'' = [''12'', ''7'']
   \<and> deserializeStrings (serializeStrings [''0'', ''3''] CHR '';'') CHR '';'' = [''0'', ''3'']"
  using serialize_roundtrip [of "[''12'', '''', ''7'']"]
        serialize_roundtrip [of "[''0'', ''3'']"]
  by simp

section \<open>Small evaluations\<close>

lemma stoi_zero_one: "stoi ''0'' = Some 0" "stoi ''1'' = Some 1"
  by code_simp+


section \<open>Strict search over three tags\<close>

text \<open>
  C1. Strict search is specified as the intersection of the \<open>files_ids\<close> of all listed
  tags. On the store where \<open>/x\<close> carries the tags \<open>A\<close> and \<open>B\<close> and the tag \<open>C\<close> is
  empty, \<open>findFileIDsWithTags\<close> for \<open>A B C\<close> returns the file although \<open>C\<close> does not list
  it: the accumulator \<open>result\<close> is never cleared between rounds.
\<close>

theorem strict_search_three_tags:
  "run 4 one_file_db [QH_TAG ''/x'' ''A'', QH_TAG ''/x'' ''B'', QH_CREATE_TAG ''C'']
     = Some search_db
   \<and> getTagID 4 search_db ''C'' = Some ''4''
   \<and> getFileIDsUnderTagID search_db ''4'' = Some []
   \<and> findFileIDsWithTags 4 search_db [''A'', ''B'', ''C''] = Some [''1'']"
  by code_simp

text \<open>
  C2. The result of a search is specified not to depend on the order of the tags. On the
  same store, strict search for \<open>A B C\<close> returns the file and strict search for
  \<open>A C B\<close> returns nothing.
\<close>

theorem strict_search_order:
  "findFileIDsWithTags 4 search_db [''A'', ''B'', ''C''] = Some [''1'']
   \<and> findFileIDsWithTags 4 search_db [''A'', ''C'', ''B''] = Some []"
  by code_simp

section \<open>Tag creation under a path\<close>

lemma cyclic_db_edges:
  "getChildTagIDs cyclic_db ''2'' = Some [''3'']"
  "getChildTagIDs cyclic_db ''3'' = Some [''2'']"
  by code_simp+

text \<open>
  C4. The nesting graph is specified to be acyclic in every reachable state. From the
  initial store, creating \<open>T\<close>, then \<open>P\<close> under \<open>T\<close>, then \<open>T\<close> again under \<open>P\<close> leaves
  \<open>P\<close> among the children of the first \<open>T\<close> and that \<open>T\<close> among the children of \<open>P\<close>.
\<close>

theorem createTag_cycle:
  "run 4 initDB [QH_CREATE_TAG ''T'', QH_CREATE_TAG ''/T/P'', QH_CREATE_TAG ''/P/T'']
     = Some cyclic_db
   \<and> (''2'', ''3'') \<in> child_edges cyclic_db
   \<and> (''3'', ''2'') \<in> child_edges cyclic_db
   \<and> \<not> acyclic (child_edges cyclic_db)"
proof -
  have run: "run 4 initDB [QH_CREATE_TAG ''T'', QH_CREATE_TAG ''/T/P'', QH_CREATE_TAG ''/P/T'']
               = Some cyclic_db"
    by code_simp
  have e23: "(''2'', ''3'') \<in> child_edges cyclic_db"
    unfolding child_edges_def using cyclic_db_edges(1) by simp
  have e32: "(''3'', ''2'') \<in> child_edges cyclic_db"
    unfolding child_edges_def using cyclic_db_edges(2) by simp
  have "(''2'', ''2'') \<in> (child_edges cyclic_db)\<^sup>+"
    using e23 e32 by (rule trancl_into_trancl2 [OF _ r_into_trancl])
  then have "\<not> acyclic (child_edges cyclic_db)"
    unfolding acyclic_def by blast
  with run e23 e32 show ?thesis by simp
qed

text \<open>
  C5. Edges are specified to be indexed on both sides. From the initial store, creating
  \<open>P\<close>, then \<open>T\<close>, then \<open>T\<close> under \<open>P\<close> puts the first \<open>T\<close> (id 3) into the children of
  \<open>P\<close> (id 2) while the parents of that \<open>T\<close> do not list \<open>P\<close>; the new row (id 4) lists
  \<open>P\<close> as its parent and is not among the children of \<open>P\<close>.
\<close>

theorem createTag_asymmetric:
  "run 4 initDB [QH_CREATE_TAG ''P'', QH_CREATE_TAG ''T'', QH_CREATE_TAG ''/P/T'']
     = Some asymmetric_db
   \<and> getChildTagIDs asymmetric_db ''2'' = Some [''3'']
   \<and> getParentTagIDs asymmetric_db ''3'' = Some [''0'']
   \<and> getParentTagIDs asymmetric_db ''4'' = Some [''2'']"
  by code_simp

section \<open>Renaming onto a file whose blob cannot be unlinked\<close>

text \<open>
  C6. A successful rename that replaces a file is specified to move the tags of the
  replaced file to the renamed one. With \<open>/b\<close> tagged \<open>R\<close> and a blob store that refuses
  to unlink, \<open>renamePath\<close> from \<open>/a\<close> to \<open>/b\<close> returns 0, both rows are then named \<open>b\<close>
  in the root folder, and \<open>R\<close> still lists the replaced file (id 2) and not the renamed
  one (id 1).
\<close>

theorem renamePath_unlink_failure:
  "run 4 two_files_db [QH_TAG ''/b'' ''R''] = Some tagged_db
   \<and> getFileIDsUnderTagID tagged_db ''2'' = Some [''2'']
   \<and> deleteFile failing_store tagged_db ''/b'' (Some []) = Some (13, tagged_db, Some [])
   \<and> renamePath failing_store 4 tagged_db ''/a'' ''/b'' = Some (0, renamed_db)
   \<and> getFileIDsUnderTagID renamed_db ''2'' = Some [''2'']"
  by code_simp

text \<open>
  The same failure without any I/O error: a file moved to the top level of the tag view is
  listed in the \<open>files_ids\<close> of the root row (id 0), which \<open>GET_ALL_TAG_IDS\<close> does not
  return. After \<open>/a\<close> is renamed over \<open>/b\<close> the root still lists the deleted file.
\<close>

lemma renamePath_root_tagged:
  "do { d \<leftarrow> run 4 two_files_db [QH_TAG ''/b'' ''R'', FD_RENAME ''/R/b'' ''/b''];
        before \<leftarrow> getFileIDsUnderTagID d ''0'';
        (r, d) \<leftarrow> renamePath working_store 4 d ''/a'' ''/b'';
        after \<leftarrow> getFileIDsUnderTagID d ''0'';
        Some (before, r, after, map file_id (files_table d)) }
   = Some ([''2''], 0, [''2''], [1])"
  by code_simp

section \<open>Nesting the root\<close>

text \<open>
  \<open>nest / A\<close> after \<open>create-tag A\<close>: the root becomes a child of \<open>A\<close> while \<open>A\<close> stays
  a child of the root.
\<close>

lemma nest_root_cycle:
  "run 4 initDB [QH_CREATE_TAG ''A'', QH_NEST ''/'' ''A''] = Some root_nested_db
   \<and> getChildTagIDs root_nested_db ''0'' = Some [''2'']
   \<and> getChildTagIDs root_nested_db ''2'' = Some [''0'']"
  by code_simp

section \<open>Deleting a file whose blob cannot be unlinked\<close>

text \<open>
  C9. When \<open>deleteFile\<close> resolves an existing file, no other File row has its hash, and
  \<open>unlink\<close> of the blob fails (return value \<open>-1\<close>, \<open>errno\<close> non-zero as POSIX
  guarantees), \<open>deleteFile\<close> returns that error number and the metadata store is the one
  it was given: no File row is deleted and no \<open>files_ids\<close> list is written. The vector
  behind \<open>savedTagIDs\<close> is untouched as well.
\<close>

theorem deleteFile_unlink_failure:
  assumes "getFolderID_path d (snd (popBackAndRemove (splitPathIntoParts filePath)))
             = Some parentFolderID"
    and "parentFolderID \<noteq> ''''"
    and "getHash d (fst (popBackAndRemove (splitPathIntoParts filePath))) parentFolderID = Some h"
    and "h \<noteq> ''''"
    and "length (filter (\<lambda>f. hash f = h) (files_table d)) \<le> 1"
    and "unlink env (rootDirectory env @ ''/'' @ h) = (- 1, e)"
    and "e \<noteq> 0"
  shows "deleteFile env d filePath savedTagIDs = Some (e, d, savedTagIDs)"
proof -
  have count: "dbExecuteSV (COUNT_HASH_GT_1 d h) = Some ''0''"
    using assms(5) by (simp add: COUNT_HASH_GT_1_def dbExecuteSV_def)
  show ?thesis
    unfolding deleteFile_def
    using assms(1-4,6,7) count by (simp add: Let_def stoi_zero_one)
qed

theorem deleteFile_unlink_failure_witness:
  "getFolderID_path tagged_db (snd (popBackAndRemove (splitPathIntoParts ''/b''))) = Some ''1''
   \<and> getHash tagged_db (fst (popBackAndRemove (splitPathIntoParts ''/b''))) ''1'' = Some ''H2''
   \<and> length (filter (\<lambda>f. hash f = ''H2'') (files_table tagged_db)) \<le> 1
   \<and> unlink failing_store (rootDirectory failing_store @ ''/'' @ ''H2'') = (- 1, 13)
   \<and> deleteFile failing_store tagged_db ''/b'' None = Some (13, tagged_db, None)"
proof -
  have h1: "getFolderID_path tagged_db (snd (popBackAndRemove (splitPathIntoParts ''/b'')))
              = Some ''1''"
    by code_simp
  have h2: "''1'' \<noteq> ''''" by simp
  have h3: "getHash tagged_db (fst (popBackAndRemove (splitPathIntoParts ''/b''))) ''1''
              = Some ''H2''"
    by code_simp
  have h4: "''H2'' \<noteq> ''''" by simp
  have h5: "length (filter (\<lambda>f. hash f = ''H2'') (files_table tagged_db)) \<le> 1"
    by code_simp
  have h6: "unlink failing_store (rootDirectory failing_store @ ''/'' @ ''H2'') = (- 1, 13)"
    by (simp add: failing_store_def)
  have h7: "(13 :: int) \<noteq> 0" by simp
  from deleteFile_unlink_failure [OF h1 h2 h3 h4 h5 h6 h7, of None] h1 h3 h5 h6
  show ?thesis by simp
qed

section \<open>Deleting a folder\<close>







section \<open>Ancestors and the cycle check of \<open>nestTag\<close>\<close>

lemma ancestors_of_root: "t = '''' \<or> t = ''0'' \<Longrightarrow> ancestors_of d t = {}"
proof -
  assume root: "t = '''' \<or> t = ''0''"
  have "a = t" if "(t, a) \<in> (parent_edges d)\<^sup>*" for a
    using that root by (induction rule: rtrancl_induct) (auto simp: parent_edges_def)
  then show ?thesis using root by (auto simp: ancestors_of_def)
qed

lemma ancestors_of_step:
  assumes "t \<noteq> ''''" "t \<noteq> ''0''" "getParentTagIDs d t = Some ps"
  shows "ancestors_of d t = insert t (\<Union>p \<in> set ps. ancestors_of d p)"
proof (rule set_eqI)
  fix a
  show "a \<in> ancestors_of d t \<longleftrightarrow> a \<in> insert t (\<Union>p \<in> set ps. ancestors_of d p)"
  proof
    assume "a \<in> ancestors_of d t"
    then have reach: "(t, a) \<in> (parent_edges d)\<^sup>*" and a: "a \<noteq> ''''" "a \<noteq> ''0''"
      by (simp_all add: ancestors_of_def)
    from reach show "a \<in> insert t (\<Union>p \<in> set ps. ancestors_of d p)"
    proof (cases rule: converse_rtranclE)
      case base
      then show ?thesis by simp
    next
      case (step p)
      then have "p \<in> set ps" using assms(3) by (auto simp: parent_edges_def)
      moreover have "a \<in> ancestors_of d p" using step(2) a by (simp add: ancestors_of_def)
      ultimately show ?thesis by blast
    qed
  next
    assume "a \<in> insert t (\<Union>p \<in> set ps. ancestors_of d p)"
    then consider "a = t" | p where "p \<in> set ps" "a \<in> ancestors_of d p" by blast
    then show "a \<in> ancestors_of d t"
    proof cases
      case 1
      then show ?thesis using assms(1,2) by (simp add: ancestors_of_def)
    next
      case 2
      have "(t, p) \<in> parent_edges d" using assms 2(1) by (simp add: parent_edges_def)
      moreover have "(p, a) \<in> (parent_edges d)\<^sup>*" using 2(2) by (simp add: ancestors_of_def)
      ultimately have "(t, a) \<in> (parent_edges d)\<^sup>*" by (rule converse_rtrancl_into_rtrancl)
      then show ?thesis using 2(2) by (simp add: ancestors_of_def)
    qed
  qed
qed

lemma getAncestorTagIDs_Suc_eq:
  "t \<noteq> '''' \<Longrightarrow> t \<noteq> ''0'' \<Longrightarrow>
   getAncestorTagIDs (Suc depth) d t S =
     Option.bind (getParentTagIDs d t) (\<lambda>ps. getAncestorTagIDs_each depth d ps (insert t S))"
  by simp

lemma getAncestorTagIDs_Suc_root:
  "t = '''' \<or> t = ''0'' \<Longrightarrow> getAncestorTagIDs (Suc depth) d t S = Some S"
  by auto

lemma getAncestorTagIDs_each_Cons_eq:
  "getAncestorTagIDs_each depth d (i # ids) S =
     Option.bind (getAncestorTagIDs depth d i S) (\<lambda>B. getAncestorTagIDs_each depth d ids B)"
  by simp

lemma getAncestorTagIDs_each_closure:
  assumes one: "\<And>t S A. getAncestorTagIDs depth d t S = Some A \<Longrightarrow> A = S \<union> ancestors_of d t"
  shows "getAncestorTagIDs_each depth d ts S = Some A
         \<Longrightarrow> A = S \<union> (\<Union>p \<in> set ts. ancestors_of d p)"
proof (induction ts arbitrary: S)
  case Nil
  then show ?case by simp
next
  case (Cons i ids)
  from Cons.prems obtain B where b: "getAncestorTagIDs depth d i S = Some B"
    and rest: "getAncestorTagIDs_each depth d ids B = Some A"
    unfolding getAncestorTagIDs_each_Cons_eq by (auto simp: bind_eq_Some_conv)
  have "B = S \<union> ancestors_of d i" using b by (rule one)
  moreover have "A = B \<union> (\<Union>p \<in> set ids. ancestors_of d p)" using rest by (rule Cons.IH)
  ultimately show ?case by auto
qed

lemma getAncestorTagIDs_closure_acc:
  "getAncestorTagIDs depth d t S = Some A \<Longrightarrow> A = S \<union> ancestors_of d t"
proof (induction depth arbitrary: t S A)
  case 0
  then show ?case by simp
next
  case (Suc depth)
  show ?case
  proof (cases "t = '''' \<or> t = ''0''")
    case True
    then have "A = S" using Suc.prems getAncestorTagIDs_Suc_root [OF True, of depth d S] by simp
    then show ?thesis using ancestors_of_root [OF True, of d] by simp
  next
    case False
    then have ne: "t \<noteq> ''''" "t \<noteq> ''0''" by simp_all
    from Suc.prems obtain ps where ps: "getParentTagIDs d t = Some ps"
      and each: "getAncestorTagIDs_each depth d ps (insert t S) = Some A"
      unfolding getAncestorTagIDs_Suc_eq [OF ne] by (auto simp: bind_eq_Some_conv)
    have "A = insert t S \<union> (\<Union>p \<in> set ps. ancestors_of d p)"
    proof (rule getAncestorTagIDs_each_closure [where depth = depth and d = d])
      show "\<And>t S A. getAncestorTagIDs depth d t S = Some A \<Longrightarrow> A = S \<union> ancestors_of d t"
        by (rule Suc.IH)
      show "getAncestorTagIDs_each depth d ps (insert t S) = Some A" by (rule each)
    qed
    then show ?thesis
      using ancestors_of_step [OF ne ps] by auto
  qed
qed

lemma getAncestorTagIDs_closure:
  "getAncestorTagIDs depth d t {} = Some A \<Longrightarrow> A = ancestors_of d t"
  using getAncestorTagIDs_closure_acc [of depth d t "{}" A] by simp

lemma ancestors_of_self: "t \<noteq> '''' \<Longrightarrow> t \<noteq> ''0'' \<Longrightarrow> t \<in> ancestors_of d t"
  by (simp add: ancestors_of_def)

lemma ancestors_of_no_root: "''0'' \<notin> ancestors_of d t"
  by (simp add: ancestors_of_def)

lemma getAncestorTagIDs_each_mono:
  assumes one: "\<And>t S A. getAncestorTagIDs n d t S = Some A \<Longrightarrow> getAncestorTagIDs m d t S = Some A"
  shows "getAncestorTagIDs_each n d ts S = Some A \<Longrightarrow> getAncestorTagIDs_each m d ts S = Some A"
proof (induction ts arbitrary: S)
  case Nil
  then show ?case by simp
next
  case (Cons i ids)
  from Cons.prems obtain B where b: "getAncestorTagIDs n d i S = Some B"
    and rest: "getAncestorTagIDs_each n d ids B = Some A"
    unfolding getAncestorTagIDs_each_Cons_eq by (auto simp: bind_eq_Some_conv)
  have "getAncestorTagIDs m d i S = Some B" using b by (rule one)
  moreover have "getAncestorTagIDs_each m d ids B = Some A" using rest by (rule Cons.IH)
  ultimately show ?case unfolding getAncestorTagIDs_each_Cons_eq by simp
qed

lemma getAncestorTagIDs_mono:
  "getAncestorTagIDs n d t S = Some A \<Longrightarrow> n \<le> m \<Longrightarrow> getAncestorTagIDs m d t S = Some A"
proof (induction n arbitrary: m t S A)
  case 0
  then show ?case by simp
next
  case (Suc n)
  then obtain m' where m: "m = Suc m'" "n \<le> m'" by (cases m) simp_all
  show ?case
  proof (cases "t = '''' \<or> t = ''0''")
    case True
    then show ?thesis
      using Suc.prems(1) m getAncestorTagIDs_Suc_root [OF True] by simp
  next
    case False
    then have ne: "t \<noteq> ''''" "t \<noteq> ''0''" by simp_all
    from Suc.prems(1) obtain ps where ps: "getParentTagIDs d t = Some ps"
      and each: "getAncestorTagIDs_each n d ps (insert t S) = Some A"
      unfolding getAncestorTagIDs_Suc_eq [OF ne] by (auto simp: bind_eq_Some_conv)
    have "getAncestorTagIDs_each m' d ps (insert t S) = Some A"
    proof (rule getAncestorTagIDs_each_mono [where n = n])
      show "\<And>t S A. getAncestorTagIDs n d t S = Some A \<Longrightarrow> getAncestorTagIDs m' d t S = Some A"
        using Suc.IH m(2) by blast
      show "getAncestorTagIDs_each n d ps (insert t S) = Some A" by (rule each)
    qed
    then show ?thesis
      unfolding m(1) getAncestorTagIDs_Suc_eq [OF ne] using ps by simp
  qed
qed

lemma getAncestorTagIDs_each_returns:
  assumes "\<forall>p \<in> set ps. \<forall>S. \<exists>n A. getAncestorTagIDs n d p S = Some A"
  shows "\<exists>n A. getAncestorTagIDs_each n d ps S = Some A"
  using assms
proof (induction ps arbitrary: S)
  case Nil
  then show ?case by simp
next
  case (Cons i ids)
  obtain n1 B where b: "getAncestorTagIDs n1 d i S = Some B" using Cons.prems by fastforce
  obtain n2 A where a: "getAncestorTagIDs_each n2 d ids B = Some A"
    using Cons.IH [of B] Cons.prems by auto
  have b': "getAncestorTagIDs (max n1 n2) d i S = Some B"
    using b by (rule getAncestorTagIDs_mono) simp
  have a': "getAncestorTagIDs_each (max n1 n2) d ids B = Some A"
  proof (rule getAncestorTagIDs_each_mono [where n = n2])
    show "\<And>t S A. getAncestorTagIDs n2 d t S = Some A
            \<Longrightarrow> getAncestorTagIDs (max n1 n2) d t S = Some A"
      by (erule getAncestorTagIDs_mono) simp
    show "getAncestorTagIDs_each n2 d ids B = Some A" by (rule a)
  qed
  have "getAncestorTagIDs_each (max n1 n2) d (i # ids) S = Some A"
    unfolding getAncestorTagIDs_each_Cons_eq using a' b' by simp
  then show ?case by blast
qed

lemma ancestors_of_parent_subset:
  assumes "(t, p) \<in> parent_edges d"
  shows "ancestors_of d p \<subseteq> ancestors_of d t"
  using assms by (auto simp: ancestors_of_def intro: converse_rtrancl_into_rtrancl)

text \<open>
  The recursion of \<open>getAncestorTagIDs\<close> returns, for a depth budget that is large enough,
  whenever no chain of \<open>parent_tags\<close> edges goes on for ever and the \<open>parent_tags\<close> of the
  tag and of each of its ancestors can be read.
\<close>

lemma getAncestorTagIDs_returns:
  assumes wf: "wf ((parent_edges d)\<inverse>)"
    and readable: "\<forall>a \<in> ancestors_of d t. getParentTagIDs d a \<noteq> None"
  shows "\<exists>depth A. getAncestorTagIDs depth d t S = Some A"
  using wf readable
proof (induction t arbitrary: S rule: wf_induct_rule)
  case (less t)
  show ?case
  proof (cases "t = '''' \<or> t = ''0''")
    case True
    then have "getAncestorTagIDs (Suc 0) d t S = Some S" by (rule getAncestorTagIDs_Suc_root)
    then show ?thesis by blast
  next
    case False
    then have ne: "t \<noteq> ''''" "t \<noteq> ''0''" by simp_all
    then have "t \<in> ancestors_of d t" by (rule ancestors_of_self)
    then obtain ps where ps: "getParentTagIDs d t = Some ps" using less.prems by auto
    have "\<forall>p \<in> set ps. \<forall>S. \<exists>n A. getAncestorTagIDs n d p S = Some A"
    proof (intro ballI allI)
      fix p S'
      assume "p \<in> set ps"
      then have edge: "(t, p) \<in> parent_edges d" using ne ps by (simp add: parent_edges_def)
      then have rev_edge: "(p, t) \<in> (parent_edges d)\<inverse>" by simp
      have "\<forall>a \<in> ancestors_of d p. getParentTagIDs d a \<noteq> None"
        using less.prems ancestors_of_parent_subset [OF edge] by blast
      then show "\<exists>n A. getAncestorTagIDs n d p S' = Some A"
        using less.IH [OF rev_edge] by blast
    qed
    then obtain n A where "getAncestorTagIDs_each n d ps (insert t S) = Some A"
      using getAncestorTagIDs_each_returns [of ps d "insert t S"] by blast
    then have "getAncestorTagIDs (Suc n) d t S = Some A"
      unfolding getAncestorTagIDs_Suc_eq [OF ne] using ps by simp
    then show ?thesis by blast
  qed
qed

lemma dbExecuteSV_map:
  "dbExecuteSV (map h rows) = (case rows of [] \<Rightarrow> Some '''' | r # _ \<Rightarrow> h r)"
  by (cases rows) (simp_all add: dbExecuteSV_def)

lemma filter_tag_id_map:
  assumes "\<And>t. tag_id (f t) = tag_id t"
  shows "filter (\<lambda>t. tag_id t = q) (map f rows) = map f (filter (\<lambda>t. tag_id t = q) rows)"
  using assms by (induction rows) simp_all

lemma filter_tag_id_empty:
  "(filter (\<lambda>t. tag_id t = q) rows = []) = (q \<notin> tag_id ` set rows)"
  by (auto simp: filter_empty_conv)

lemma child_after_UPDATE_CHILD:
  "dbExecuteSV (GET_CHILD_TAG_IDS (UPDATE_CHILD_TAG_IDS d s p) q) =
     (if q = p \<and> p \<in> tag_id ` set (tags_table d) then Some s
      else dbExecuteSV (GET_CHILD_TAG_IDS d q))"
proof -
  let ?f = "\<lambda>t. if tag_id t = p then t\<lparr>child_tags := Some s\<rparr> else t"
  have keep: "\<And>t. tag_id (?f t) = tag_id t" by simp
  have eq: "GET_CHILD_TAG_IDS (UPDATE_CHILD_TAG_IDS d s p) q =
            map (\<lambda>t. child_tags (?f t)) (filter (\<lambda>t. tag_id t = q) (tags_table d))"
    unfolding GET_CHILD_TAG_IDS_def UPDATE_CHILD_TAG_IDS_def
    using filter_tag_id_map [of ?f q "tags_table d", OF keep] by simp
  show ?thesis
  proof (cases "filter (\<lambda>t. tag_id t = q) (tags_table d)")
    case Nil
    then have "q \<notin> tag_id ` set (tags_table d)" by (simp add: filter_tag_id_empty)
    then show ?thesis using Nil eq by (auto simp: dbExecuteSV_def GET_CHILD_TAG_IDS_def)
  next
    case (Cons t ts)
    then have "t \<in> set (filter (\<lambda>t. tag_id t = q) (tags_table d))" by simp
    then have t: "t \<in> set (tags_table d)" "tag_id t = q" by simp_all
    then have "q \<in> tag_id ` set (tags_table d)" by blast
    then show ?thesis using Cons eq t
      by (auto simp: dbExecuteSV_def GET_CHILD_TAG_IDS_def)
  qed
qed

lemma parent_after_UPDATE_PARENT:
  "dbExecuteSV (GET_PARENT_TAG_IDS (UPDATE_PARENT_TAG_IDS d s p) q) =
     (if q = p \<and> p \<in> tag_id ` set (tags_table d) then Some s
      else dbExecuteSV (GET_PARENT_TAG_IDS d q))"
proof -
  let ?f = "\<lambda>t. if tag_id t = p then t\<lparr>parent_tags := Some s\<rparr> else t"
  have keep: "\<And>t. tag_id (?f t) = tag_id t" by simp
  have eq: "GET_PARENT_TAG_IDS (UPDATE_PARENT_TAG_IDS d s p) q =
            map (\<lambda>t. parent_tags (?f t)) (filter (\<lambda>t. tag_id t = q) (tags_table d))"
    unfolding GET_PARENT_TAG_IDS_def UPDATE_PARENT_TAG_IDS_def
    using filter_tag_id_map [of ?f q "tags_table d", OF keep] by simp
  show ?thesis
  proof (cases "filter (\<lambda>t. tag_id t = q) (tags_table d)")
    case Nil
    then have "q \<notin> tag_id ` set (tags_table d)" by (simp add: filter_tag_id_empty)
    then show ?thesis using Nil eq by (auto simp: dbExecuteSV_def GET_PARENT_TAG_IDS_def)
  next
    case (Cons t ts)
    then have "t \<in> set (filter (\<lambda>t. tag_id t = q) (tags_table d))" by simp
    then have t: "t \<in> set (tags_table d)" "tag_id t = q" by simp_all
    then have "q \<in> tag_id ` set (tags_table d)" by blast
    then show ?thesis using Cons eq t
      by (auto simp: dbExecuteSV_def GET_PARENT_TAG_IDS_def)
  qed
qed

lemma child_after_UPDATE_PARENT:
  "GET_CHILD_TAG_IDS (UPDATE_PARENT_TAG_IDS d s p) q = GET_CHILD_TAG_IDS d q"
proof -
  let ?f = "\<lambda>t. if tag_id t = p then t\<lparr>parent_tags := Some s\<rparr> else t"
  have keep: "\<And>t. tag_id (?f t) = tag_id t" by simp
  have "map child_tags (filter (\<lambda>t. tag_id t = q) (map ?f (tags_table d)))
        = map child_tags (map ?f (filter (\<lambda>t. tag_id t = q) (tags_table d)))"
    using filter_tag_id_map [of ?f q "tags_table d", OF keep] by simp
  also have "\<dots> = map child_tags (filter (\<lambda>t. tag_id t = q) (tags_table d))"
    by simp
  finally show ?thesis
    by (simp add: GET_CHILD_TAG_IDS_def UPDATE_PARENT_TAG_IDS_def)
qed

lemma tag_ids_after_UPDATE_CHILD:
  "tag_id ` set (tags_table (UPDATE_CHILD_TAG_IDS d s p)) = tag_id ` set (tags_table d)"
proof -
  let ?f = "\<lambda>t. if tag_id t = p then t\<lparr>child_tags := Some s\<rparr> else t"
  have h: "(\<lambda>t. tag_id (?f t)) = tag_id"
    by (rule ext) simp
  have tt: "tags_table (UPDATE_CHILD_TAG_IDS d s p) = map ?f (tags_table d)"
    by (simp add: UPDATE_CHILD_TAG_IDS_def)
  show ?thesis
    unfolding tt set_map image_image h ..
qed

lemma clean_roundtrip:
  "clean_ids v \<Longrightarrow> deserializeStrings (serializeStrings v CHR '';'') CHR '';'' = v"
  by (rule deserialize_serialize_clean) (simp add: clean_ids_def list_all_iff)


lemma nestTag_failure_unchanged:
  assumes "nestTag depth d tagID parentTagID = Some (r, d')" "r \<noteq> 0"
  shows "d' = d"
proof (cases "tagID = '''' \<or> parentTagID = ''''")
  case True
  then show ?thesis using assms by (auto simp: nestTag_def)
next
  case False
  then obtain cs where cs: "getChildTagIDs d parentTagID = Some cs"
    using assms(1) by (cases "getChildTagIDs d parentTagID") (auto simp: nestTag_def)
  show ?thesis
  proof (cases "tagID \<in> set cs")
    case True
    then show ?thesis using assms False cs by (auto simp: nestTag_def)
  next
    case notin: False
    then obtain ps where ps: "getParentTagIDs d tagID = Some ps"
      using assms(1) False cs by (cases "getParentTagIDs d tagID") (auto simp: nestTag_def)
    show ?thesis
    proof (cases "parentTagID \<in> set ps")
      case True
      then show ?thesis using assms False cs notin ps by (auto simp: nestTag_def)
    next
      case notin': False
      then obtain A where A: "getAncestorTagIDs depth d parentTagID {} = Some A"
        using assms(1) False cs notin ps
        by (cases "getAncestorTagIDs depth d parentTagID {}") (auto simp: nestTag_def)
      show ?thesis
      proof (cases "tagID \<in> A")
        case True
        then show ?thesis using assms False cs notin ps notin' A by (auto simp: nestTag_def)
      next
        case False
        with \<open>\<not> (tagID = '''' \<or> parentTagID = '''')\<close> assms cs notin ps notin' A
        show ?thesis
          by (auto simp: nestTag_def Let_def bind_eq_Some_conv)
      qed
    qed
  qed
qed

lemma nestTag_success:
  assumes ne: "tagID \<noteq> ''''" "parentTagID \<noteq> ''''"
    and cs: "getChildTagIDs d parentTagID = Some cs" and ps: "getParentTagIDs d tagID = Some ps"
    and fresh: "tagID \<notin> set cs" "parentTagID \<notin> set ps"
    and A: "getAncestorTagIDs depth d parentTagID {} = Some A" and ok: "tagID \<notin> A"
  shows "\<exists>d'. nestTag depth d tagID parentTagID = Some (0, d')
           \<and> (has_tag_row d tagID \<and> has_tag_row d parentTagID
                \<and> clean_ids (cs @ [tagID]) \<and> clean_ids (ps @ [parentTagID])
               \<longrightarrow> getChildTagIDs d' parentTagID = Some (cs @ [tagID])
                   \<and> getParentTagIDs d' tagID = Some (ps @ [parentTagID]))"
proof -
  obtain p where p: "stoi parentTagID = Some p"
    using cs by (cases "stoi parentTagID") (simp_all add: getChildTagIDs_def)
  obtain c where c: "stoi tagID = Some c"
    using ps by (cases "stoi tagID") (simp_all add: getParentTagIDs_def)
  let ?s1 = "serializeStrings (cs @ [tagID]) CHR '';''"
  let ?s2 = "serializeStrings (ps @ [parentTagID]) CHR '';''"
  let ?d1 = "UPDATE_CHILD_TAG_IDS d ?s1 p"
  let ?d2 = "UPDATE_PARENT_TAG_IDS ?d1 ?s2 c"
  have run: "nestTag depth d tagID parentTagID = Some (0, ?d2)"
    using ne cs ps fresh A ok p c
    by (simp add: nestTag_def updateChildTagIDs_def updateParentTagIDs_def)
  have rec: "getChildTagIDs ?d2 parentTagID = Some (cs @ [tagID])
             \<and> getParentTagIDs ?d2 tagID = Some (ps @ [parentTagID])"
    if rows: "has_tag_row d tagID" "has_tag_row d parentTagID"
      and clean: "clean_ids (cs @ [tagID])" "clean_ids (ps @ [parentTagID])"
  proof -
    have prow: "p \<in> tag_id ` set (tags_table d)" using rows(2) p by (simp add: has_tag_row_def)
    have crow: "c \<in> tag_id ` set (tags_table ?d1)"
      using rows(1) c by (simp add: has_tag_row_def tag_ids_after_UPDATE_CHILD)
    have "dbExecuteSV (GET_CHILD_TAG_IDS ?d2 p) = Some ?s1"
      using prow by (simp add: child_after_UPDATE_PARENT child_after_UPDATE_CHILD)
    then have one: "getChildTagIDs ?d2 parentTagID = Some (cs @ [tagID])"
      using p clean(1) by (simp add: getChildTagIDs_def clean_roundtrip)
    have "dbExecuteSV (GET_PARENT_TAG_IDS ?d2 c) = Some ?s2"
      using crow by (simp add: parent_after_UPDATE_PARENT)
    then have two: "getParentTagIDs ?d2 tagID = Some (ps @ [parentTagID])"
      using c clean(2) by (simp add: getParentTagIDs_def clean_roundtrip)
    from one two show ?thesis by simp
  qed
  from run rec show ?thesis by blast
qed

text \<open>
  The outcomes of \<open>nestTag\<close> on a child id and a parent id, in any store:
  it returns \<open>ENOENT\<close> when either id is empty; \<open>EEXIST\<close> when the child is already in
  the parent's \<open>child_tags\<close> or the parent already in the child's \<open>parent_tags\<close>; otherwise
  it computes the set \<open>A\<close> of \<open>getAncestorTagIDs\<close> for the parent, which is the closure of
  the parent over \<open>parent_tags\<close> without the reserved root id 0, returns 1 exactly when the
  child is in \<open>A\<close>, and otherwise returns 0 with the child appended to the parent's
  \<open>child_tags\<close> and the parent appended to the child's \<open>parent_tags\<close> (both ids having a
  row, and the lists holding well-formed ids). Every non-zero result leaves the store
  unchanged. The set is returned, for a large enough depth budget, whenever the
  \<open>parent_tags\<close> edges admit no infinite chain and the lists of the parent and its
  ancestors can be read.
\<close>

lemma nestTag_outcomes:
  "(tagID = '''' \<or> parentTagID = '''' \<longrightarrow> nestTag depth d tagID parentTagID = Some (ENOENT, d))
   \<and> (tagID \<noteq> '''' \<and> parentTagID \<noteq> '''' \<and> getChildTagIDs d parentTagID = Some cs
        \<and> tagID \<in> set cs
      \<longrightarrow> nestTag depth d tagID parentTagID = Some (EEXIST, d))
   \<and> (tagID \<noteq> '''' \<and> parentTagID \<noteq> '''' \<and> getChildTagIDs d parentTagID = Some cs
        \<and> getParentTagIDs d tagID = Some ps \<and> tagID \<notin> set cs \<and> parentTagID \<in> set ps
      \<longrightarrow> nestTag depth d tagID parentTagID = Some (EEXIST, d))
   \<and> (tagID \<noteq> '''' \<and> parentTagID \<noteq> '''' \<and> getChildTagIDs d parentTagID = Some cs
        \<and> getParentTagIDs d tagID = Some ps \<and> tagID \<notin> set cs \<and> parentTagID \<notin> set ps
        \<and> getAncestorTagIDs depth d parentTagID {} = Some A
      \<longrightarrow> A = ancestors_of d parentTagID
          \<and> (parentTagID \<noteq> ''0'' \<longrightarrow> parentTagID \<in> A)
          \<and> ''0'' \<notin> A
          \<and> (tagID \<in> A \<longrightarrow> nestTag depth d tagID parentTagID = Some (1, d))
          \<and> (tagID \<notin> A \<longrightarrow>
                (\<exists>d'. nestTag depth d tagID parentTagID = Some (0, d')
                   \<and> (has_tag_row d tagID \<and> has_tag_row d parentTagID
                        \<and> clean_ids (cs @ [tagID]) \<and> clean_ids (ps @ [parentTagID])
                       \<longrightarrow> getChildTagIDs d' parentTagID = Some (cs @ [tagID])
                           \<and> getParentTagIDs d' tagID = Some (ps @ [parentTagID])))))
   \<and> (nestTag depth d tagID parentTagID = Some (r, d1) \<and> r \<noteq> 0 \<longrightarrow> d1 = d)
   \<and> (wf ((parent_edges d)\<inverse>)
        \<and> (\<forall>a \<in> ancestors_of d parentTagID. getParentTagIDs d a \<noteq> None)
      \<longrightarrow> (\<exists>n B. getAncestorTagIDs n d parentTagID {} = Some B))"
proof (intro conjI impI)
  assume "tagID = '''' \<or> parentTagID = ''''"
  then show "nestTag depth d tagID parentTagID = Some (ENOENT, d)"
    by (auto simp: nestTag_def)
next
  assume "tagID \<noteq> '''' \<and> parentTagID \<noteq> '''' \<and> getChildTagIDs d parentTagID = Some cs
            \<and> tagID \<in> set cs"
  then show "nestTag depth d tagID parentTagID = Some (EEXIST, d)"
    by (simp add: nestTag_def)
next
  assume "tagID \<noteq> '''' \<and> parentTagID \<noteq> '''' \<and> getChildTagIDs d parentTagID = Some cs
        \<and> getParentTagIDs d tagID = Some ps \<and> tagID \<notin> set cs \<and> parentTagID \<in> set ps"
  then show "nestTag depth d tagID parentTagID = Some (EEXIST, d)"
    by (simp add: nestTag_def)
next
  assume h: "tagID \<noteq> '''' \<and> parentTagID \<noteq> '''' \<and> getChildTagIDs d parentTagID = Some cs
        \<and> getParentTagIDs d tagID = Some ps \<and> tagID \<notin> set cs \<and> parentTagID \<notin> set ps
        \<and> getAncestorTagIDs depth d parentTagID {} = Some A"
  then have A: "A = ancestors_of d parentTagID"
    using getAncestorTagIDs_closure [of depth d parentTagID A] by blast
  show "A = ancestors_of d parentTagID" by (rule A)
  show "parentTagID \<in> A" if "parentTagID \<noteq> ''0''"
    using that h A by (simp add: ancestors_of_self)
  show "''0'' \<notin> A" using A by (simp add: ancestors_of_no_root)
  show "nestTag depth d tagID parentTagID = Some (1, d)" if "tagID \<in> A"
    using that h by (simp add: nestTag_def)
  show "\<exists>d'. nestTag depth d tagID parentTagID = Some (0, d')
           \<and> (has_tag_row d tagID \<and> has_tag_row d parentTagID
                \<and> clean_ids (cs @ [tagID]) \<and> clean_ids (ps @ [parentTagID])
               \<longrightarrow> getChildTagIDs d' parentTagID = Some (cs @ [tagID])
                   \<and> getParentTagIDs d' tagID = Some (ps @ [parentTagID]))"
    if "tagID \<notin> A"
    using h that by (intro nestTag_success) simp_all
next
  assume "nestTag depth d tagID parentTagID = Some (r, d1) \<and> r \<noteq> 0"
  then show "d1 = d" using nestTag_failure_unchanged [of depth d tagID parentTagID r d1] by simp
next
  assume "wf ((parent_edges d)\<inverse>)
        \<and> (\<forall>a \<in> ancestors_of d parentTagID. getParentTagIDs d a \<noteq> None)"
  then show "\<exists>n B. getAncestorTagIDs n d parentTagID {} = Some B"
    using getAncestorTagIDs_returns [of d parentTagID "{}"] by blast
qed

text \<open>
  C3. \<open>nestTag\<close> is specified to fail the cycle check whenever the child is among the
  ancestors of the parent, the closure of the parent over \<open>parent_tags\<close>. After
  \<open>create-tag A\<close> the root (id 0, what \<open>/\<close> resolves to) is listed in the \<open>parent_tags\<close>
  of \<open>A\<close> (id 2), hence among the ancestors of \<open>A\<close>; yet \<open>nestTag\<close> of the root under
  \<open>A\<close> returns 0 and records the edge on both sides, so that each of the two is a child
  of the other. \<open>getAncestorTagIDs\<close> never puts the root id into the set it computes.
\<close>

theorem nestTag_root_accepted:
  "run 4 initDB [QH_CREATE_TAG ''A''] = Some one_tag_db
   \<and> getTagID 4 one_tag_db ''/'' = Some ''0''
   \<and> getTagID 4 one_tag_db ''A'' = Some ''2''
   \<and> ''0'' \<in> closure_over_parent_tags one_tag_db ''2''
   \<and> getAncestorTagIDs 3 one_tag_db ''2'' {} = Some {''2''}
   \<and> nestTag 3 one_tag_db ''0'' ''2'' = Some (0, root_nested_db)
   \<and> getChildTagIDs root_nested_db ''0'' = Some [''2'']
   \<and> getChildTagIDs root_nested_db ''2'' = Some [''0'']
   \<and> getParentTagIDs root_nested_db ''0'' = Some [''2'']
   \<and> getParentTagIDs root_nested_db ''2'' = Some [''0'']"
proof -
  have run: "run 4 initDB [QH_CREATE_TAG ''A''] = Some one_tag_db" by code_simp
  have ids: "getTagID 4 one_tag_db ''/'' = Some ''0''" "getTagID 4 one_tag_db ''A'' = Some ''2''"
    by code_simp+
  have ps: "getParentTagIDs one_tag_db ''2'' = Some [''0'']" by code_simp
  then have "(''2'', ''0'') \<in> listed_parent_edges one_tag_db"
    by (simp add: listed_parent_edges_def)
  then have clo: "''0'' \<in> closure_over_parent_tags one_tag_db ''2''"
    by (simp add: closure_over_parent_tags_def)
  have anc: "getAncestorTagIDs 3 one_tag_db ''2'' {} = Some {''2''}" by code_simp
  have nest: "nestTag 3 one_tag_db ''0'' ''2'' = Some (0, root_nested_db)" by code_simp
  have after: "getChildTagIDs root_nested_db ''0'' = Some [''2'']"
    "getChildTagIDs root_nested_db ''2'' = Some [''0'']"
    "getParentTagIDs root_nested_db ''0'' = Some [''2'']"
    "getParentTagIDs root_nested_db ''2'' = Some [''0'']"
    by code_simp+
  from run ids clo anc nest after show ?thesis by simp
qed

lemma nest_db_parents:
  assumes "getParentTagIDs nest_db t = Some ps" "p \<in> set ps"
  shows "(stoi t = Some 2 \<and> p = ''0'') \<or> (stoi t = Some 3 \<and> p = ''2'')
         \<or> (stoi t = Some 4 \<and> p = ''0'')"
proof -
  obtain k where k: "stoi t = Some k"
    using assms(1) by (cases "stoi t") (simp_all add: getParentTagIDs_def)
  have d0: "deserializeStrings '''' CHR '';'' = []" by code_simp
  have d1: "deserializeStrings ''0;'' CHR '';'' = [''0'']" by code_simp
  have d2: "deserializeStrings ''2;'' CHR '';'' = [''2'']" by code_simp
  consider "k = 0" | "k = 1" | "k = 2" | "k = 3" | "k = 4" | "k \<notin> {0, 1, 2, 3, 4}" by blast
  then show ?thesis
  proof cases
    case 1
    then show ?thesis using assms k
      by (auto simp: getParentTagIDs_def GET_PARENT_TAG_IDS_def nest_db_def dbExecuteSV_def d0)
  next
    case 2
    then show ?thesis using assms k
      by (auto simp: getParentTagIDs_def GET_PARENT_TAG_IDS_def nest_db_def dbExecuteSV_def d0)
  next
    case 3
    then show ?thesis using assms k
      by (auto simp: getParentTagIDs_def GET_PARENT_TAG_IDS_def nest_db_def dbExecuteSV_def d1)
  next
    case 4
    then show ?thesis using assms k
      by (auto simp: getParentTagIDs_def GET_PARENT_TAG_IDS_def nest_db_def dbExecuteSV_def d2)
  next
    case 5
    then show ?thesis using assms k
      by (auto simp: getParentTagIDs_def GET_PARENT_TAG_IDS_def nest_db_def dbExecuteSV_def d1)
  next
    case 6
    then show ?thesis using assms k
      by (auto simp: getParentTagIDs_def GET_PARENT_TAG_IDS_def nest_db_def dbExecuteSV_def d0)
  qed
qed

lemma nest_db_wf: "wf ((parent_edges nest_db)\<inverse>)"
proof -
  let ?rank = "\<lambda>t. case stoi t of None \<Rightarrow> (0 :: nat)
                        | Some k \<Rightarrow> if k = 3 then 2 else if k = 2 \<or> k = 4 then 1 else 0"
  have s0: "stoi ''0'' = Some 0" and s2: "stoi ''2'' = Some 2" by code_simp+
  have "(parent_edges nest_db)\<inverse> \<subseteq> measure ?rank"
  proof
    fix e
    assume "e \<in> (parent_edges nest_db)\<inverse>"
    then obtain p t where e: "e = (p, t)" and edge: "(t, p) \<in> parent_edges nest_db"
      by (cases e) auto
    from edge obtain ps where "getParentTagIDs nest_db t = Some ps" "p \<in> set ps"
      by (auto simp: parent_edges_def)
    then have "(stoi t = Some 2 \<and> p = ''0'') \<or> (stoi t = Some 3 \<and> p = ''2'')
         \<or> (stoi t = Some 4 \<and> p = ''0'')"
      by (rule nest_db_parents)
    then show "e \<in> measure ?rank"
      using e s0 s2 by auto
  qed
  then show ?thesis by (rule wf_subset [OF wf_measure])
qed

lemma nest_db_readable: "\<forall>a \<in> ancestors_of nest_db ''3''. getParentTagIDs nest_db a \<noteq> None"
proof
  fix a
  assume a: "a \<in> ancestors_of nest_db ''3''"
  have run: "getAncestorTagIDs 3 nest_db ''3'' {} = Some {''2'', ''3''}" by code_simp
  have "{''2'', ''3''} = ancestors_of nest_db ''3''"
    using run by (rule getAncestorTagIDs_closure)
  then have "a = ''2'' \<or> a = ''3''" using a by auto
  moreover have "getParentTagIDs nest_db ''2'' \<noteq> None" "getParentTagIDs nest_db ''3'' \<noteq> None"
    by code_simp+
  ultimately show "getParentTagIDs nest_db a \<noteq> None" by auto
qed

lemma nestTag_outcomes_examples:
  "nestTag 3 nest_db '''' ''2'' = Some (ENOENT, nest_db)
   \<and> nestTag 3 nest_db ''3'' ''2'' = Some (EEXIST, nest_db)
   \<and> nestTag 3 asymmetric_db ''4'' ''2'' = Some (EEXIST, asymmetric_db)
   \<and> ancestors_of nest_db ''3'' = {''2'', ''3''}
   \<and> nestTag 3 nest_db ''2'' ''3'' = Some (1, nest_db)
   \<and> (\<exists>d'. nestTag 3 nest_db ''4'' ''3'' = Some (0, d')
          \<and> getChildTagIDs d' ''3'' = Some [''4'']
          \<and> getParentTagIDs d' ''4'' = Some [''0'', ''3''])
   \<and> (\<exists>n B. getAncestorTagIDs n nest_db ''3'' {} = Some B)"
proof -
  have c2: "getChildTagIDs nest_db ''2'' = Some [''3'']" by code_simp
  have c3: "getChildTagIDs nest_db ''3'' = Some []" by code_simp
  have p2: "getParentTagIDs nest_db ''2'' = Some [''0'']" by code_simp
  have p4: "getParentTagIDs nest_db ''4'' = Some [''0'']" by code_simp
  have a3: "getAncestorTagIDs 3 nest_db ''3'' {} = Some {''2'', ''3''}" by code_simp
  have ac2: "getChildTagIDs asymmetric_db ''2'' = Some [''3'']" by code_simp
  have ap4: "getParentTagIDs asymmetric_db ''4'' = Some [''2'']" by code_simp
  have rows: "has_tag_row nest_db ''4''" "has_tag_row nest_db ''3''" by code_simp+
  have clean: "clean_ids ([] @ [''4''])" "clean_ids ([''0''] @ [''3''])" by code_simp+
  have w1: "nestTag 3 nest_db '''' ''2'' = Some (ENOENT, nest_db)"
    using nestTag_outcomes [of "''''" "''2''" 3 nest_db] by simp
  have w2: "nestTag 3 nest_db ''3'' ''2'' = Some (EEXIST, nest_db)"
    using nestTag_outcomes [of "''3''" "''2''" 3 nest_db "[''3'']"] c2 by simp
  have w3: "nestTag 3 asymmetric_db ''4'' ''2'' = Some (EEXIST, asymmetric_db)"
    using nestTag_outcomes [of "''4''" "''2''" 3 asymmetric_db "[''3'']" "[''2'']"] ac2 ap4
    by simp
  have w4: "{''2'', ''3''} = ancestors_of nest_db ''3''
            \<and> nestTag 3 nest_db ''2'' ''3'' = Some (1, nest_db)"
    using nestTag_outcomes [of "''2''" "''3''" 3 nest_db "[]" "[''0'']" "{''2'', ''3''}"]
      c3 p2 a3 by simp
  have w5: "\<exists>d'. nestTag 3 nest_db ''4'' ''3'' = Some (0, d')
          \<and> getChildTagIDs d' ''3'' = Some [''4'']
          \<and> getParentTagIDs d' ''4'' = Some [''0'', ''3'']"
    using nestTag_outcomes [of "''4''" "''3''" 3 nest_db "[]" "[''0'']" "{''2'', ''3''}"]
      c3 p4 a3 rows clean by simp
  have w6: "\<exists>n B. getAncestorTagIDs n nest_db ''3'' {} = Some B"
    using nestTag_outcomes [of "''4''" "''3''" 3 nest_db] nest_db_wf nest_db_readable by blast
  from w1 w2 w3 w4 w5 w6 show ?thesis by simp
qed

section \<open>Moving a tagged file between tags\<close>





lemma GET_FILENAME_after_UPDATE_TAG_FILE_IDS:
  "GET_FILENAME_FROM_ID (UPDATE_TAG_FILE_IDS d s p) i = GET_FILENAME_FROM_ID d i"
  by (simp add: GET_FILENAME_FROM_ID_def UPDATE_TAG_FILE_IDS_def)










end
